theory Spec2Isabelle
  imports Main "HOL-Library.Word" "HOL-Library.Multiset" "HOL-Library.AList"
begin

section \<open>Strings of the host language\<close>

text \<open>
  A string of the program is a sequence of UTF-16 code units. String literals of the
  source are all ASCII and are written through \<open>str\<close>.
\<close>

type_synonym uchar = "16 word"
type_synonym jsstring = "uchar list"

definition str :: "string \<Rightarrow> jsstring" where
  "str s = map (\<lambda>c. of_nat (of_char c)) s"

text \<open>
  \<open>String.prototype.trim\<close> strips the code units that are WhiteSpace or LineTerminator
  from both ends: TAB, LF, VT, FF, CR, SP, NBSP, U+1680, U+2000 to U+200A, U+2028, U+2029,
  U+202F, U+205F, U+3000 and U+FEFF.
\<close>

definition isWhiteSpace :: "uchar \<Rightarrow> bool" where
  "isWhiteSpace c \<longleftrightarrow>
     c = 0x9 \<or> c = 0xA \<or> c = 0xB \<or> c = 0xC \<or> c = 0xD \<or> c = 0x20 \<or> c = 0xA0 \<or>
     c = 0x1680 \<or> (0x2000 \<le> c \<and> c \<le> 0x200A) \<or> c = 0x2028 \<or> c = 0x2029 \<or>
     c = 0x202F \<or> c = 0x205F \<or> c = 0x3000 \<or> c = 0xFEFF"

definition trim :: "jsstring \<Rightarrow> jsstring" where
  "trim s = rev (dropWhile isWhiteSpace (rev (dropWhile isWhiteSpace s)))"

section \<open>Data model\<close>

record Player =
  id' :: jsstring
  name :: jsstring
  color :: jsstring
  teamId :: "jsstring option"

record Team =
  id' :: jsstring
  name :: jsstring
  accent :: jsstring

definition palette :: "jsstring list" where
  "palette = [str ''#ff7b7b'', str ''#ffd36b'', str ''#9ae66e'', str ''#6fd1ff'',
              str ''#caa0ff'', str ''#ffa6c9'', str ''#8de4ff'', str ''#ffe066'']"

definition initialTeams :: "Team list" where
  "initialTeams =
     [\<lparr>Team.id' = str ''alpha'', name = str ''Team Alpha'', accent = str ''#ffb347''\<rparr>,
      \<lparr>Team.id' = str ''bravo'', name = str ''Team Bravo'', accent = str ''#6dd5ed''\<rparr>]"

definition seedNames :: "jsstring list" where
  "seedNames = [str ''Astra'', str ''Blitz'', str ''Cipher'', str ''Draco'', str ''Echo'',
                str ''Flux'', str ''Gemini'', str ''Halo'', str ''Ion'', str ''Jinx'',
                str ''Kairo'', str ''Luna'', str ''Metro'']"

text \<open>
  \<open>makeId\<close> draws its result from the platform's random source. The model takes the
  drawn value as an argument: \<open>mk i\<close> is what the call made for the seed player of
  index \<open>i\<close> returned, and the handlers that create an entity receive the id drawn for
  it.
\<close>

definition seededPlayers :: "(nat \<Rightarrow> jsstring) \<Rightarrow> Player list" where
  "seededPlayers mk =
     map (\<lambda>(nm, index). \<lparr>Player.id' = mk index, name = nm,
                           color = palette ! (index mod length palette), teamId = None\<rparr>)
         (zip seedNames [0 ..< length seedNames])"

text \<open>
  \<open>makeId\<close> itself. Where \<open>crypto.randomUUID\<close> exists its result is the id; elsewhere the
  id is \<open>Math.random().toString(36).slice(2, 9)\<close>, the code units 2 to 8 of the text
  that \<open>toString(36)\<close> gives. A draw records which branch ran and what the platform
  returned there. Nothing in \<open>makeId\<close> or in its callers compares the result with the
  ids in use.
\<close>

datatype randomDraw = RandomUUID jsstring | MathRandom jsstring

fun makeId :: "randomDraw \<Rightarrow> jsstring" where
  "makeId (RandomUUID uuid) = uuid"
| "makeId (MathRandom text) = take 7 (drop 2 text)"

section \<open>State store and interaction handlers\<close>

record AppState =
  players :: "Player list"
  teams :: "Team list"
  playerName :: jsstring
  teamName :: jsstring
  hoveredZone :: "jsstring option"

definition handleReset :: "(nat \<Rightarrow> jsstring) \<Rightarrow> bool \<Rightarrow> AppState \<Rightarrow> AppState" where
  "handleReset mk confirmed s =
     (if confirmed then s\<lparr>players := seededPlayers mk, teams := initialTeams\<rparr> else s)"

definition handleCreatePlayer :: "jsstring \<Rightarrow> AppState \<Rightarrow> AppState" where
  "handleCreatePlayer newId s =
     (let trimmed = trim (playerName s) in
      if trimmed = [] then s
      else s\<lparr>players := players s @
                 [\<lparr>Player.id' = newId, name = trimmed,
                   color = palette ! (length (players s) mod length palette),
                   teamId = None\<rparr>],
               playerName := []\<rparr>)"

definition handleCreateTeam :: "jsstring \<Rightarrow> AppState \<Rightarrow> AppState" where
  "handleCreateTeam newId s =
     (let trimmed = trim (teamName s) in
      if trimmed = [] then s
      else s\<lparr>teams := teams s @
                 [\<lparr>Team.id' = newId, name = trimmed,
                   accent = palette ! (length (teams s) mod length palette)\<rparr>],
               teamName := []\<rparr>)"

definition handleDrop :: "jsstring \<Rightarrow> jsstring option \<Rightarrow> AppState \<Rightarrow> AppState" where
  "handleDrop playerId tid s =
     s\<lparr>players := map (\<lambda>player. if Player.id' player = playerId
                                   then player\<lparr>teamId := tid\<rparr> else player) (players s),
       hoveredZone := None\<rparr>"

definition handleRemovePlayer :: "jsstring \<Rightarrow> AppState \<Rightarrow> AppState" where
  "handleRemovePlayer playerId s =
     s\<lparr>players := filter (\<lambda>player. Player.id' player \<noteq> playerId) (players s)\<rparr>"

definition handleUpdatePlayerName :: "jsstring \<Rightarrow> jsstring \<Rightarrow> AppState \<Rightarrow> AppState" where
  "handleUpdatePlayerName playerId newName s =
     s\<lparr>players := map (\<lambda>player. if Player.id' player = playerId
                                   then player\<lparr>Player.name := newName\<rparr> else player)
                        (players s)\<rparr>"

definition handleRemoveTeam :: "jsstring \<Rightarrow> AppState \<Rightarrow> AppState" where
  "handleRemoveTeam tid s =
     s\<lparr>teams := filter (\<lambda>team. Team.id' team \<noteq> tid) (teams s),
       players := map (\<lambda>player. if teamId player = Some tid
                                   then player\<lparr>teamId := None\<rparr> else player) (players s)\<rparr>"

definition handleUpdateTeamName :: "jsstring \<Rightarrow> jsstring \<Rightarrow> AppState \<Rightarrow> AppState" where
  "handleUpdateTeamName tid newName s =
     s\<lparr>teams := map (\<lambda>team. if Team.id' team = tid
                               then team\<lparr>Team.name := newName\<rparr> else team) (teams s)\<rparr>"

text \<open>
  The drop handler of a zone (\<open>makeZoneHandlers\<close>): \<open>payload\<close> is what
  \<open>getData('playerId')\<close> returns, the empty string when the transfer carries no such
  entry.
\<close>

definition onDrop :: "jsstring option \<Rightarrow> jsstring \<Rightarrow> AppState \<Rightarrow> AppState" where
  "onDrop tid payload s = (if payload \<noteq> [] then handleDrop payload tid s else s)"

definition onDragEnter :: "jsstring \<Rightarrow> AppState \<Rightarrow> AppState" where
  "onDragEnter zoneKey s = s\<lparr>hoveredZone := Some zoneKey\<rparr>"

definition onDragLeave :: "jsstring \<Rightarrow> AppState \<Rightarrow> AppState" where
  "onDragLeave zoneKey s =
     s\<lparr>hoveredZone := (if hoveredZone s = Some zoneKey then None else hoveredZone s)\<rparr>"

text \<open>
  The submit handlers of the inline editors. The editor's own flag \<open>isEditing\<close> is local
  to the component and not part of the store. A team column receives \<open>onRename\<close> only
  when it shows a team; the bench column has none.
\<close>

definition Nametag_handleSubmit :: "jsstring \<Rightarrow> jsstring \<Rightarrow> AppState \<Rightarrow> AppState" where
  "Nametag_handleSubmit playerId editName s =
     (if trim editName \<noteq> [] then handleUpdatePlayerName playerId (trim editName) s else s)"

definition TeamColumn_handleSubmit ::
  "(jsstring \<Rightarrow> AppState \<Rightarrow> AppState) option \<Rightarrow> jsstring \<Rightarrow> AppState \<Rightarrow> AppState" where
  "TeamColumn_handleSubmit onRename editName s =
     (case onRename of
        Some rename \<Rightarrow> (if trim editName \<noteq> [] then rename (trim editName) s else s)
      | None \<Rightarrow> s)"

section \<open>Events of the view and reachable states\<close>

text \<open>
  One event per control of the view. \<open>SubmitPlayer\<close> and \<open>SubmitTeam\<close> carry the id that
  \<open>makeId\<close> draws for the new entity; \<open>Drop\<close> carries the team id bound to the zone
  (\<open>None\<close> for the bench) and the transfer's payload.
\<close>

datatype event =
    ChangePlayerName jsstring
  | ChangeTeamName jsstring
  | SubmitPlayer jsstring
  | SubmitTeam jsstring
  | DragEnter jsstring
  | DragLeave jsstring
  | Drop "jsstring option" jsstring
  | RemovePlayer jsstring
  | RenamePlayer jsstring jsstring
  | RemoveTeam jsstring
  | RenameTeam jsstring jsstring
  | Reset bool

fun dispatch :: "(nat \<Rightarrow> jsstring) \<Rightarrow> event \<Rightarrow> AppState \<Rightarrow> AppState" where
  "dispatch mk (ChangePlayerName v) s = s\<lparr>playerName := v\<rparr>"
| "dispatch mk (ChangeTeamName v) s = s\<lparr>teamName := v\<rparr>"
| "dispatch mk (SubmitPlayer newId) s = handleCreatePlayer newId s"
| "dispatch mk (SubmitTeam newId) s = handleCreateTeam newId s"
| "dispatch mk (DragEnter zoneKey) s = onDragEnter zoneKey s"
| "dispatch mk (DragLeave zoneKey) s = onDragLeave zoneKey s"
| "dispatch mk (Drop tid payload) s = onDrop tid payload s"
| "dispatch mk (RemovePlayer playerId) s = handleRemovePlayer playerId s"
| "dispatch mk (RenamePlayer playerId editName) s = Nametag_handleSubmit playerId editName s"
| "dispatch mk (RemoveTeam tid) s = handleRemoveTeam tid s"
| "dispatch mk (RenameTeam tid editName) s =
     TeamColumn_handleSubmit (Some (handleUpdateTeamName tid)) editName s"
| "dispatch mk (Reset confirmed) s = handleReset mk confirmed s"

text \<open>
  The zones the view renders: the bench, bound to no team, and one column per team of the
  current collection, bound to that team's id. A drop can only land on a rendered zone.
  Every other event is accepted in every state, which covers at least what the view offers.
\<close>

definition zoneTargets :: "AppState \<Rightarrow> jsstring option list" where
  "zoneTargets s = None # map (\<lambda>team. Some (Team.id' team)) (teams s)"

fun offered :: "AppState \<Rightarrow> event \<Rightarrow> bool" where
  "offered s (Drop tid payload) = (tid \<in> set (zoneTargets s))"
| "offered s e = True"

definition seedState :: "(nat \<Rightarrow> jsstring) \<Rightarrow> AppState" where
  "seedState mk = \<lparr>players = seededPlayers mk, teams = initialTeams,
                    playerName = [], teamName = [], hoveredZone = None\<rparr>"

inductive reachable :: "(nat \<Rightarrow> jsstring) \<Rightarrow> AppState \<Rightarrow> bool" for mk where
  seed: "reachable mk (seedState mk)"
| step: "reachable mk s \<Longrightarrow> offered s e \<Longrightarrow> reachable mk (dispatch mk e s)"

definition refIntegrity :: "AppState \<Rightarrow> bool" where
  "refIntegrity s =
     list_all (\<lambda>p. case teamId p of None \<Rightarrow> True
                    | Some t \<Rightarrow> t \<in> set (map Team.id' (teams s))) (players s)"

text \<open>A list of events is a run from a state when each is offered in the state it meets.\<close>

fun allOffered :: "(nat \<Rightarrow> jsstring) \<Rightarrow> AppState \<Rightarrow> event list \<Rightarrow> bool" where
  "allOffered mk s [] = True"
| "allOffered mk s (e # es) = (offered s e \<and> allOffered mk (dispatch mk e s) es)"

section \<open>Roster projector\<close>

datatype error = TypeError | URIError

text \<open>
  \<open>teamPlayers\<close> is an ordinary object created by a literal, so a property read that
  finds no own property goes on to the prototype chain. Its own properties are the buckets,
  kept in creation order. Its prototype is \<open>Object.prototype\<close> until an assignment to the
  key \<open>__proto__\<close>, which runs the inherited setter and makes the assigned array the
  prototype. The names below are the properties that the language standard puts on
  \<open>Object.prototype\<close> and on \<open>Array.prototype\<close>; all of them are writable, so an
  assignment to one of them on \<open>teamPlayers\<close> creates an own property.
\<close>

definition objectPrototypeNames :: "jsstring list" where
  "objectPrototypeNames =
     map str [''constructor'', ''__defineGetter__'', ''__defineSetter__'', ''hasOwnProperty'',
              ''__lookupGetter__'', ''__lookupSetter__'', ''isPrototypeOf'',
              ''propertyIsEnumerable'', ''toString'', ''valueOf'', ''__proto__'',
              ''toLocaleString'']"

definition arrayPrototypeNames :: "jsstring list" where
  "arrayPrototypeNames =
     map str [''at'', ''concat'', ''constructor'', ''copyWithin'', ''entries'', ''every'',
              ''fill'', ''filter'', ''find'', ''findIndex'', ''findLast'', ''findLastIndex'',
              ''flat'', ''flatMap'', ''forEach'', ''includes'', ''indexOf'', ''join'', ''keys'',
              ''lastIndexOf'', ''map'', ''pop'', ''push'', ''reduce'', ''reduceRight'',
              ''reverse'', ''shift'', ''slice'', ''some'', ''sort'', ''splice'',
              ''toLocaleString'', ''toReversed'', ''toSorted'', ''toSpliced'', ''toString'',
              ''unshift'', ''values'', ''with'']"

fun digits :: "nat \<Rightarrow> jsstring" where
  "digits n = (if n < 10 then [of_nat (48 + n)]
               else digits (n div 10) @ [of_nat (48 + n mod 10)])"

declare digits.simps [simp del]

datatype proto = ObjectPrototype | ArrayObject "Player list"

record PlayerBuckets =
  own :: "(jsstring \<times> Player list) list"
  prototype :: proto

text \<open>
  What a read \<open>teamPlayers[k]\<close> yields, as far as the projector tells values apart: an
  own bucket, the array that is the prototype (through the inherited \<open>__proto__\<close> getter),
  a falsy inherited value (the length 0 of an empty prototype array), any other inherited
  value (a function, \<open>Object.prototype\<close> itself, a non-zero length, an element of the
  prototype array: truthy, and without a \<open>push\<close> method), or \<open>undefined\<close>.
\<close>

datatype propval =
    Undefined
  | OwnArray "Player list"
  | ProtoArray "Player list"
  | InheritedFalsy
  | InheritedTruthy

definition getProp :: "PlayerBuckets \<Rightarrow> jsstring \<Rightarrow> propval" where
  "getProp obj k =
     (case map_of (own obj) k of
        Some a \<Rightarrow> OwnArray a
      | None \<Rightarrow>
          (case prototype obj of
             ObjectPrototype \<Rightarrow>
               if k \<in> set objectPrototypeNames then InheritedTruthy else Undefined
           | ArrayObject a \<Rightarrow>
               if k = str ''__proto__'' then ProtoArray a
               else if k = str ''length'' then (if a = [] then InheritedFalsy else InheritedTruthy)
               else if k \<in> set (map digits [0 ..< length a]) then InheritedTruthy
               else if k \<in> set arrayPrototypeNames \<or> k \<in> set objectPrototypeNames
                 then InheritedTruthy
               else Undefined))"

definition falsy :: "propval \<Rightarrow> bool" where
  "falsy v \<longleftrightarrow> v = Undefined \<or> v = InheritedFalsy"

text \<open>The assignment \<open>teamPlayers[k] = []\<close>.\<close>

definition setEmpty :: "jsstring \<Rightarrow> PlayerBuckets \<Rightarrow> PlayerBuckets" where
  "setEmpty k obj =
     (if k = str ''__proto__'' then obj\<lparr>prototype := ArrayObject []\<rparr>
      else obj\<lparr>own := AList.update k [] (own obj)\<rparr>)"

text \<open>The call \<open>teamPlayers[k].push(player)\<close>: a value without \<open>push\<close> raises.\<close>

definition pushPlayer :: "jsstring \<Rightarrow> Player \<Rightarrow> PlayerBuckets \<Rightarrow> error + PlayerBuckets" where
  "pushPlayer k player obj =
     (case getProp obj k of
        OwnArray a \<Rightarrow> Inr (obj\<lparr>own := AList.update k (a @ [player]) (own obj)\<rparr>)
      | ProtoArray a \<Rightarrow> Inr (obj\<lparr>prototype := ArrayObject (a @ [player])\<rparr>)
      | _ \<Rightarrow> Inl TypeError)"

definition bucketOf :: "Player \<Rightarrow> jsstring" where
  "bucketOf player = (case teamId player of None \<Rightarrow> str ''bench'' | Some t \<Rightarrow> t)"

definition addPlayer :: "Player \<Rightarrow> PlayerBuckets \<Rightarrow> error + PlayerBuckets" where
  "addPlayer player obj =
     (let bucket = bucketOf player;
          obj' = (if falsy (getProp obj bucket) then setEmpty bucket obj else obj)
      in pushPlayer bucket player obj')"

fun addPlayers :: "Player list \<Rightarrow> PlayerBuckets \<Rightarrow> error + PlayerBuckets" where
  "addPlayers [] obj = Inr obj"
| "addPlayers (player # rest) obj =
     (case addPlayer player obj of Inl e \<Rightarrow> Inl e | Inr obj' \<Rightarrow> addPlayers rest obj')"

text \<open>
  \<open>Array.prototype.sort\<close> with a comparator is stable; the model is the stable insertion
  sort. \<open>localeCompare\<close> belongs to the platform and is an argument of the projector: a
  negative result puts the first name before the second, a positive one after it.
\<close>

fun insertBy :: "('a \<Rightarrow> 'a \<Rightarrow> int) \<Rightarrow> 'a \<Rightarrow> 'a list \<Rightarrow> 'a list" where
  "insertBy cmp x [] = [x]"
| "insertBy cmp x (y # ys) = (if cmp x y \<le> 0 then x # y # ys else y # insertBy cmp x ys)"

fun sortBy :: "('a \<Rightarrow> 'a \<Rightarrow> int) \<Rightarrow> 'a list \<Rightarrow> 'a list" where
  "sortBy cmp [] = []"
| "sortBy cmp (x # xs) = insertBy cmp x (sortBy cmp xs)"

definition byName :: "(jsstring \<Rightarrow> jsstring \<Rightarrow> int) \<Rightarrow> Player \<Rightarrow> Player \<Rightarrow> int" where
  "byName localeCompare a b = localeCompare (Player.name a) (Player.name b)"

definition roster ::
  "(jsstring \<Rightarrow> jsstring \<Rightarrow> int) \<Rightarrow> Player list \<Rightarrow> Team list \<Rightarrow> error + PlayerBuckets" where
  "roster localeCompare ps ts =
     (let teamPlayers = fold (\<lambda>team. setEmpty (Team.id' team)) ts
                          \<lparr>own = [(str ''bench'', [])], prototype = ObjectPrototype\<rparr>
      in case addPlayers ps teamPlayers of
           Inl e \<Rightarrow> Inl e
         | Inr obj \<Rightarrow>
             Inr (obj\<lparr>own := map (\<lambda>(k, lst). (k, sortBy (byName localeCompare) lst))
                                  (own obj)\<rparr>))"

text \<open>
  The own bucket at a key, empty when the object has no own property of that name; and the
  objects whose prototype is still \<open>Object.prototype\<close>, with each own key once.
\<close>

definition ownBucket :: "PlayerBuckets \<Rightarrow> jsstring \<Rightarrow> Player list" where
  "ownBucket obj k = (case map_of (own obj) k of Some a \<Rightarrow> a | None \<Rightarrow> [])"

definition plainBuckets :: "PlayerBuckets \<Rightarrow> bool" where
  "plainBuckets obj \<longleftrightarrow>
     prototype obj = ObjectPrototype \<and> distinct (map fst (own obj))"

text \<open>A comparator is consistent when "not after" is a total preorder.\<close>

definition consistent :: "(jsstring \<Rightarrow> jsstring \<Rightarrow> int) \<Rightarrow> bool" where
  "consistent cmp \<longleftrightarrow>
     (\<forall>a b. cmp a b \<le> 0 \<or> cmp b a \<le> 0) \<and>
     (\<forall>a b c. cmp a b \<le> 0 \<longrightarrow> cmp b c \<le> 0 \<longrightarrow> cmp a c \<le> 0)"

text \<open>Comparison by code units, a consistent comparator used to run the projector.\<close>

fun codeUnitCompare :: "jsstring \<Rightarrow> jsstring \<Rightarrow> int" where
  "codeUnitCompare [] [] = 0"
| "codeUnitCompare [] (y # ys) = - 1"
| "codeUnitCompare (x # xs) [] = 1"
| "codeUnitCompare (x # xs) (y # ys) =
     (if x < y then - 1 else if y < x then 1 else codeUnitCompare xs ys)"

section \<open>Persistence adapter\<close>

text \<open>
  Values as the JSON functions see them. The type of numbers is left open: no number
  occurs in a well-formed collection.
\<close>

datatype 'n json =
    JNull
  | JBool bool
  | JNumber 'n
  | JString jsstring
  | JArray "'n json list"
  | JObject "(jsstring \<times> 'n json) list"

definition playerJson :: "Player \<Rightarrow> 'n json" where
  "playerJson p =
     JObject [(str ''id'', JString (Player.id' p)), (str ''name'', JString (Player.name p)),
              (str ''color'', JString (color p)),
              (str ''teamId'', case teamId p of None \<Rightarrow> JNull | Some t \<Rightarrow> JString t)]"

definition teamJson :: "Team \<Rightarrow> 'n json" where
  "teamJson t =
     JObject [(str ''id'', JString (Team.id' t)), (str ''name'', JString (Team.name t)),
              (str ''accent'', JString (accent t))]"

definition playersJson :: "Player list \<Rightarrow> 'n json" where
  "playersJson ps = JArray (map playerJson ps)"

definition teamsJson :: "Team list \<Rightarrow> 'n json" where
  "teamsJson ts = JArray (map teamJson ts)"

text \<open>
  The typed reading of a value: which values are a Player (a Team, a collection of them) in
  the sense of the data model, fields looked up by key.
\<close>

fun asPlayer :: "'n json \<Rightarrow> Player option" where
  "asPlayer (JObject fs) =
     (case (map_of fs (str ''id''), map_of fs (str ''name''), map_of fs (str ''color''),
            map_of fs (str ''teamId'')) of
        (Some (JString i), Some (JString n), Some (JString c), Some JNull) \<Rightarrow>
          Some \<lparr>Player.id' = i, name = n, color = c, teamId = None\<rparr>
      | (Some (JString i), Some (JString n), Some (JString c), Some (JString t)) \<Rightarrow>
          Some \<lparr>Player.id' = i, name = n, color = c, teamId = Some t\<rparr>
      | _ \<Rightarrow> None)"
| "asPlayer _ = None"

fun asTeam :: "'n json \<Rightarrow> Team option" where
  "asTeam (JObject fs) =
     (case (map_of fs (str ''id''), map_of fs (str ''name''), map_of fs (str ''accent'')) of
        (Some (JString i), Some (JString n), Some (JString a)) \<Rightarrow>
          Some \<lparr>Team.id' = i, name = n, accent = a\<rparr>
      | _ \<Rightarrow> None)"
| "asTeam _ = None"

fun asPlayers :: "'n json \<Rightarrow> Player list option" where
  "asPlayers (JArray vs) = those (map asPlayer vs)"
| "asPlayers _ = None"

fun asTeams :: "'n json \<Rightarrow> Team list option" where
  "asTeams (JArray vs) = those (map asTeam vs)"
| "asTeams _ = None"

text \<open>
  The platform functions the adapter calls are arguments of the model. \<open>None\<close> stands for
  the exception the function raises: a SyntaxError of \<open>JSON.parse\<close>, a URIError of the URI
  functions.
\<close>

record 'n platform =
  JSON_parse :: "jsstring \<Rightarrow> 'n json option"
  JSON_stringify :: "'n json \<Rightarrow> jsstring"
  encodeURIComponent :: "jsstring \<Rightarrow> jsstring option"
  decodeURIComponent :: "jsstring \<Rightarrow> jsstring option"

text \<open>
  \<open>String.prototype.split\<close> with a string separator and no limit: the pieces between the
  occurrences of the separator, found from the left and not overlapping; an empty separator
  splits into code units.
\<close>

fun splitFrom :: "jsstring \<Rightarrow> jsstring \<Rightarrow> jsstring \<Rightarrow> jsstring list" where
  "splitFrom sep acc [] = [rev acc]"
| "splitFrom sep acc (c # cs) =
     (if take (length sep) (c # cs) = sep
      then rev acc # splitFrom sep [] (drop (length sep - 1) cs)
      else splitFrom sep (c # acc) cs)"

definition splitString :: "jsstring \<Rightarrow> jsstring \<Rightarrow> jsstring list" where
  "splitString s sep = (if sep = [] then map (\<lambda>c. [c]) s else splitFrom sep [] s)"

definition getCookie ::
  "'n platform \<Rightarrow> jsstring option \<Rightarrow> jsstring \<Rightarrow> error + jsstring option" where
  "getCookie pf document_cookie nm =
     (case document_cookie of
        None \<Rightarrow> Inr None
      | Some dc \<Rightarrow>
          (let value = str ''; '' @ dc;
               parts = splitString value (str ''; '' @ nm @ str ''='')
           in if length parts = 2
              then (case splitString (last parts) (str '';'') of
                      [] \<Rightarrow> Inr None
                    | val # _ \<Rightarrow>
                        if val = [] then Inr None
                        else (case decodeURIComponent pf val of
                                None \<Rightarrow> Inl URIError
                              | Some decoded \<Rightarrow> Inr (Some decoded)))
              else Inr None))"

text \<open>
  The initializer of a slice: \<open>readSlot\<close> is the part up to the final \<open>return\<close>, with
  \<open>Some v\<close> for the value returned inside \<open>try\<close> and \<open>None\<close> when control reaches the
  fallback; \<open>loadSlot\<close> is the whole initializer. Types are erased at run time, so the
  initial value of a slice is whatever value the parser returned.
\<close>

definition readSlot ::
  "'n platform \<Rightarrow> jsstring option \<Rightarrow> jsstring \<Rightarrow> error + 'n json option" where
  "readSlot pf document_cookie slot =
     (case getCookie pf document_cookie slot of
        Inl e \<Rightarrow> Inl e
      | Inr None \<Rightarrow> Inr None
      | Inr (Some saved) \<Rightarrow> (if saved = [] then Inr None else Inr (JSON_parse pf saved)))"

definition loadSlot ::
  "'n platform \<Rightarrow> jsstring option \<Rightarrow> jsstring \<Rightarrow> 'n json \<Rightarrow> error + 'n json" where
  "loadSlot pf document_cookie slot fallback =
     (case readSlot pf document_cookie slot of
        Inl e \<Rightarrow> Inl e
      | Inr None \<Rightarrow> Inr fallback
      | Inr (Some v) \<Rightarrow> Inr v)"

definition initialPlayers ::
  "'n platform \<Rightarrow> jsstring option \<Rightarrow> (nat \<Rightarrow> jsstring) \<Rightarrow> error + 'n json" where
  "initialPlayers pf document_cookie mk =
     loadSlot pf document_cookie (str ''players'') (playersJson (seededPlayers mk))"

definition initialTeamsState :: "'n platform \<Rightarrow> jsstring option \<Rightarrow> error + 'n json" where
  "initialTeamsState pf document_cookie =
     loadSlot pf document_cookie (str ''teams'') (teamsJson initialTeams)"

text \<open>
  The text the persistence effect assigns to \<open>document.cookie\<close> after a change of a
  slice.
\<close>

definition slotCookie :: "'n platform \<Rightarrow> jsstring \<Rightarrow> 'n json \<Rightarrow> error + jsstring" where
  "slotCookie pf slot v =
     (case encodeURIComponent pf (JSON_stringify pf v) of
        None \<Rightarrow> Inl URIError
      | Some encoded \<Rightarrow> Inr (slot @ str ''='' @ encoded @ str ''; path=/; max-age=31536000''))"

definition playersCookie :: "'n platform \<Rightarrow> Player list \<Rightarrow> error + jsstring" where
  "playersCookie pf ps = slotCookie pf (str ''players'') (playersJson ps)"

definition teamsCookie :: "'n platform \<Rightarrow> Team list \<Rightarrow> error + jsstring" where
  "teamsCookie pf ts = slotCookie pf (str ''teams'') (teamsJson ts)"

text \<open>
  The browser's side of \<open>document.cookie\<close>. Reading it gives the stored pairs as
  \<open>name=value\<close>, joined by a semicolon and a space. Assigning a text stores the pair that
  stands before the first semicolon of the text, in place of a pair of the same name when
  there is one.
\<close>

type_synonym jar = "(jsstring \<times> jsstring) list"

fun cookieString :: "jar \<Rightarrow> jsstring" where
  "cookieString [] = []"
| "cookieString [(n, v)] = n @ str ''='' @ v"
| "cookieString ((n, v) # rest) = n @ str ''='' @ v @ str ''; '' @ cookieString rest"

definition assignCookie :: "jsstring \<Rightarrow> jar \<Rightarrow> jar" where
  "assignCookie text jar =
     (let pair = takeWhile (\<lambda>c. c \<noteq> 0x3B) text;
          n = takeWhile (\<lambda>c. c \<noteq> 0x3D) pair;
          v = drop (Suc (length n)) pair
      in AList.update n v jar)"

text \<open>
  Conditions on the stored pairs: a name holds no semicolon and no equals sign and a value
  holds no semicolon (\<open>cleanJar\<close>); on top of that no name is stored twice
  (\<open>wellFormedJar\<close>). \<open>slotValues\<close> lists the values stored under a name, and
  \<open>entry\<close> is the text of one pair in the cookie string with the separator in front.
\<close>

definition cleanJar :: "jar \<Rightarrow> bool" where
  "cleanJar jar \<longleftrightarrow>
     list_all (\<lambda>(n, v). 0x3B \<notin> set n \<and> 0x3D \<notin> set n \<and> 0x3B \<notin> set v) jar"

definition wellFormedJar :: "jar \<Rightarrow> bool" where
  "wellFormedJar jar \<longleftrightarrow> distinct (map fst jar) \<and> cleanJar jar"

definition slotValues :: "jar \<Rightarrow> jsstring \<Rightarrow> jsstring list" where
  "slotValues jar nm = map snd (filter (\<lambda>(n, v). n = nm) jar)"

definition entry :: "jsstring \<times> jsstring \<Rightarrow> jsstring" where
  "entry nv = str ''; '' @ fst nv @ str ''='' @ snd nv"

text \<open>
  The two persistence effects after a change, players first, on the browser's store; the
  next page load reads the store's cookie string.
\<close>

definition persist :: "'n platform \<Rightarrow> Player list \<Rightarrow> Team list \<Rightarrow> jar \<Rightarrow> error + jar" where
  "persist pf ps ts jar =
     (case playersCookie pf ps of
        Inl e \<Rightarrow> Inl e
      | Inr playersText \<Rightarrow>
          (case teamsCookie pf ts of
             Inl e \<Rightarrow> Inl e
           | Inr teamsText \<Rightarrow> Inr (assignCookie teamsText (assignCookie playersText jar))))"

text \<open>
  What the round trip of a value needs from the platform: the JSON text is not empty and
  parses back to the value; its URI encoding succeeds, is not empty, holds no semicolon and
  decodes back to the JSON text.
\<close>

definition platformRoundTrips :: "'n platform \<Rightarrow> 'n json \<Rightarrow> jsstring \<Rightarrow> bool" where
  "platformRoundTrips pf v enc \<longleftrightarrow>
     JSON_stringify pf v \<noteq> [] \<and>
     JSON_parse pf (JSON_stringify pf v) = Some v \<and>
     encodeURIComponent pf (JSON_stringify pf v) = Some enc \<and>
     enc \<noteq> [] \<and> 0x3B \<notin> set enc \<and>
     decodeURIComponent pf enc = Some (JSON_stringify pf v)"

section \<open>Concrete inputs\<close>

text \<open>A small state, and the results of \<open>makeId\<close> for the seed, used to run the model.\<close>

definition demoState :: AppState where
  "demoState =
     \<lparr>players =
        [\<lparr>Player.id' = str ''p1'', name = str ''Astra'', color = str ''#ff7b7b'', teamId = None\<rparr>,
         \<lparr>Player.id' = str ''p2'', name = str ''Blitz'', color = str ''#ffd36b'',
           teamId = Some (str ''alpha'')\<rparr>],
      teams = initialTeams, playerName = str '' Bo '', teamName = str ''Vanguard'',
      hoveredZone = None\<rparr>"

definition aeroPlayer :: Player where
  "aeroPlayer = \<lparr>Player.id' = str ''p3'', name = str ''Aero'', color = str ''#9ae66e'',
                  teamId = None\<rparr>"

text \<open>A player whose team id is the name of an inherited property.\<close>

definition constructorPlayer :: Player where
  "constructorPlayer = \<lparr>Player.id' = str ''p1'', name = str ''Astra'', color = str ''#ff7b7b'',
                        teamId = Some (str ''constructor'')\<rparr>"

definition demoIds :: "nat \<Rightarrow> jsstring" where
  "demoIds i = str ''seed-'' @ digits i"

definition demoRun :: "event list" where
  "demoRun = [ChangeTeamName (str ''Vanguard''), SubmitTeam (str ''t9''),
              Drop (Some (str ''t9'')) (demoIds 0), Drop (Some (str ''alpha'')) (demoIds 1),
              RemoveTeam (str ''t9'')]"

text \<open>
  A fragment of the platform: it agrees with the real functions on the texts and values
  listed, which are the ones the examples use; its results elsewhere stand for nothing.
\<close>

definition demoPlatform :: "int platform" where
  "demoPlatform =
     \<lparr>JSON_parse = map_of [(str ''[]'', JArray []), (str ''5'', JNumber 5),
                           (str ''[{}]'', JArray [JObject []])],
      JSON_stringify = (\<lambda>v. if v = JArray [] then str ''[]'' else str ''null''),
      encodeURIComponent = map_of [(str ''[]'', str ''%5B%5D'')],
      decodeURIComponent = map_of [(str ''%5B%5D'', str ''[]''), (str ''5'', str ''5''),
                                   (str ''%5B%7B%7D%5D'', str ''[{}]''),
                                   (str ''nope'', str ''nope'')]\<rparr>"

text \<open>
  Two players created from the seed state on the branch without \<open>crypto.randomUUID\<close>,
  with \<open>Math.random()\<close> returning 0.5 both times: \<open>(0.5).toString(36)\<close> is the text
  \<open>0.i\<close>.
\<close>

definition collisionRun :: "event list" where
  "collisionRun =
     [ChangePlayerName (str ''Nova''), SubmitPlayer (makeId (MathRandom (str ''0.i''))),
      ChangePlayerName (str ''Orion''), SubmitPlayer (makeId (MathRandom (str ''0.i'')))]"

text \<open>
  The platform fragment with one more fact: \<open>decodeURIComponent\<close> raises a URIError on a
  lone percent sign.
\<close>

definition percentPlatform :: "int platform" where
  "percentPlatform =
     demoPlatform\<lparr>decodeURIComponent :=
       (\<lambda>s. if s = str ''%'' then None else decodeURIComponent demoPlatform s)\<rparr>"

text \<open>
  Stores of the browser: one that holds only the theme, one whose players slot does not
  parse, one whose players slot is a number, and one that holds two cookies named
  \<open>players\<close> (cookies of different paths that both apply to the page).
\<close>

definition themeJar :: jar where
  "themeJar = [(str ''theme'', str ''dark'')]"

definition brokenJar :: jar where
  "brokenJar = [(str ''theme'', str ''dark''), (str ''players'', str ''nope'')]"

definition numberJar :: jar where
  "numberJar = [(str ''players'', str ''5''), (str ''theme'', str ''dark'')]"

definition twiceJar :: jar where
  "twiceJar = [(str ''players'', str ''5''), (str ''players'', str ''5'')]"

section \<open>Facts about trimming\<close>

lemma trim_whitespace_only:
  assumes "list_all isWhiteSpace s"
  shows "trim s = []"
proof -
  from assms have d: "dropWhile isWhiteSpace s = []"
    by (simp add: list_all_iff)
  show ?thesis
    unfolding trim_def d by simp
qed

lemma trim_empty_iff: "trim s = [] \<longleftrightarrow> list_all isWhiteSpace s"
proof
  assume "trim s = []"
  then have "dropWhile isWhiteSpace (rev (dropWhile isWhiteSpace s)) = []"
    by (simp add: trim_def)
  then have "\<forall>c \<in> set (dropWhile isWhiteSpace s). isWhiteSpace c"
    by simp
  then have "dropWhile isWhiteSpace s = []"
    by (metis hd_dropWhile hd_in_set)
  then show "list_all isWhiteSpace s"
    by (simp add: list_all_iff)
qed (rule trim_whitespace_only)

text \<open>The definitions that evaluate the handlers on the concrete state.\<close>

lemmas demo_eval = demoState_def initialTeams_def str_def trim_def isWhiteSpace_def palette_def

section \<open>Interaction handlers\<close>

lemma length_palette: "length palette = 8"
  by (simp add: palette_def)

lemma cleared_teamId_differs: "teamId p = Some tid \<Longrightarrow> p\<lparr>teamId := None\<rparr> \<noteq> p"
  by (cases p) auto

lemma changed_by_cascade:
  "length (filter (\<lambda>(p, p'). p' \<noteq> p)
     (zip ps (map (\<lambda>p. if teamId p = Some tid then p\<lparr>teamId := None\<rparr> else p) ps)))
   = length (filter (\<lambda>p. teamId p = Some tid) ps)"
  by (induction ps) (simp_all add: cleared_teamId_differs)



text \<open>
  Claim C5 as stated promises a fresh id. The id is a random draw that nothing checks
  against the ids in use: when \<open>Math.random()\<close> returns 0.5 for two creations, both new
  players get the id \<open>i\<close>, and the second one is appended with an id that is not fresh.
\<close>

theorem create_player_id_collision:
  "allOffered demoIds (seedState demoIds) collisionRun
   \<and> makeId (MathRandom (str ''0.i'')) = str ''i''
   \<and> map Player.id' (drop 13 (players (fold (dispatch demoIds) collisionRun (seedState demoIds))))
       = [str ''i'', str ''i'']
   \<and> map Player.name (drop 13 (players (fold (dispatch demoIds) collisionRun (seedState demoIds))))
       = [str ''Nova'', str ''Orion'']
   \<and> \<not> distinct (map Player.id'
         (players (fold (dispatch demoIds) collisionRun (seedState demoIds))))"
  by (simp add: collisionRun_def seedState_def handleCreatePlayer_def Let_def seededPlayers_def
      seedNames_def upt_rec_numeral str_def trim_def isWhiteSpace_def)

text \<open>
  Claim C5, amended. Create Player with a name whose trimmed form is not empty appends
  exactly one player at the end of the collection: its id is the result of \<open>makeId\<close>, its
  name the trimmed input, its team none, its colour the palette entry at the collection's
  length modulo 8. The players already there and the teams are unchanged. The ids of the
  new collection are pairwise distinct exactly when they were before and the drawn id is
  not among them.
\<close>

theorem handleCreatePlayer_appends:
  assumes "trim (playerName s) \<noteq> []"
  shows "players (handleCreatePlayer (makeId draw) s) =
           players s @ [\<lparr>Player.id' = makeId draw, name = trim (playerName s),
                          color = palette ! (length (players s) mod 8), teamId = None\<rparr>]
         \<and> teams (handleCreatePlayer (makeId draw) s) = teams s
         \<and> (distinct (map Player.id' (players (handleCreatePlayer (makeId draw) s)))
              \<longleftrightarrow> distinct (map Player.id' (players s))
                  \<and> makeId draw \<notin> Player.id' ` set (players s))"
  using assms by (auto simp add: handleCreatePlayer_def Let_def length_palette)

theorem handleCreatePlayer_appends_witness:
  "trim (playerName demoState) \<noteq> []
   \<and> players (handleCreatePlayer (makeId (MathRandom (str ''0.k8q2m5xw1''))) demoState) =
       players demoState @
       [\<lparr>Player.id' = str ''k8q2m5x'', name = str ''Bo'', color = str ''#9ae66e'',
          teamId = None\<rparr>]
   \<and> teams (handleCreatePlayer (makeId (MathRandom (str ''0.k8q2m5xw1''))) demoState)
       = teams demoState
   \<and> distinct (map Player.id'
        (players (handleCreatePlayer (makeId (MathRandom (str ''0.k8q2m5xw1''))) demoState)))"
  using handleCreatePlayer_appends [of demoState "MathRandom (str ''0.k8q2m5xw1'')"]
  by (simp add: demo_eval)

text \<open>
  Claim C6. Create Player and Create Team with an empty or whitespace-only name return the
  state they were given: neither collection changes.
\<close>

theorem create_blank_name_noop:
  "(list_all isWhiteSpace (playerName s) \<longrightarrow>
      handleCreatePlayer newId s = s
      \<and> players (handleCreatePlayer newId s) = players s
      \<and> teams (handleCreatePlayer newId s) = teams s)
   \<and> (list_all isWhiteSpace (teamName s) \<longrightarrow>
      handleCreateTeam newId s = s
      \<and> players (handleCreateTeam newId s) = players s
      \<and> teams (handleCreateTeam newId s) = teams s)"
  by (simp add: handleCreatePlayer_def handleCreateTeam_def trim_whitespace_only)

theorem create_blank_name_noop_witness:
  "list_all isWhiteSpace (playerName (demoState\<lparr>playerName := str ''  ''\<rparr>))
   \<and> players (handleCreatePlayer (str ''p3'') (demoState\<lparr>playerName := str ''  ''\<rparr>))
       = players demoState
   \<and> teams (handleCreatePlayer (str ''p3'') (demoState\<lparr>playerName := str ''  ''\<rparr>))
       = teams demoState
   \<and> list_all isWhiteSpace (teamName (demoState\<lparr>teamName := []\<rparr>))
   \<and> players (handleCreateTeam (str ''t3'') (demoState\<lparr>teamName := []\<rparr>)) = players demoState
   \<and> teams (handleCreateTeam (str ''t3'') (demoState\<lparr>teamName := []\<rparr>)) = teams demoState"
  using create_blank_name_noop [of "demoState\<lparr>playerName := str ''  ''\<rparr>" "str ''p3''"]
    create_blank_name_noop [of "demoState\<lparr>teamName := []\<rparr>" "str ''t3''"]
  by (simp add: demo_eval)

text \<open>
  Claim C7. A drop with a non-empty payload sets the team of every player whose id is the
  payload to the zone's team (none for the bench); ids, names, colours, the other players'
  teams, the order of the players and the teams are unchanged. A drop with an empty payload
  returns the state it was given.
\<close>

theorem onDrop_moves_player:
  "(payload \<noteq> [] \<longrightarrow>
      players (onDrop tid payload s) =
        map (\<lambda>p. if Player.id' p = payload then p\<lparr>teamId := tid\<rparr> else p) (players s)
      \<and> length (players (onDrop tid payload s)) = length (players s)
      \<and> (\<forall>i < length (players s).
            Player.id' (players (onDrop tid payload s) ! i) = Player.id' (players s ! i)
          \<and> Player.name (players (onDrop tid payload s) ! i) = Player.name (players s ! i)
          \<and> color (players (onDrop tid payload s) ! i) = color (players s ! i)
          \<and> teamId (players (onDrop tid payload s) ! i) =
              (if Player.id' (players s ! i) = payload then tid else teamId (players s ! i)))
      \<and> teams (onDrop tid payload s) = teams s)
   \<and> onDrop tid [] s = s"
  by (simp add: onDrop_def handleDrop_def)

theorem onDrop_moves_player_witness:
  "str ''p1'' \<noteq> []
   \<and> players (onDrop (Some (str ''bravo'')) (str ''p1'') demoState) =
       [\<lparr>Player.id' = str ''p1'', name = str ''Astra'', color = str ''#ff7b7b'',
          teamId = Some (str ''bravo'')\<rparr>,
        \<lparr>Player.id' = str ''p2'', name = str ''Blitz'', color = str ''#ffd36b'',
          teamId = Some (str ''alpha'')\<rparr>]
   \<and> teams (onDrop (Some (str ''bravo'')) (str ''p1'') demoState) = initialTeams
   \<and> onDrop (Some (str ''bravo'')) [] demoState = demoState"
  using onDrop_moves_player [of "str ''p1''" "Some (str ''bravo'')" demoState]
  by (simp add: demo_eval)

text \<open>
  Claim C8. Submitting a player's inline editor with a name whose trimmed form is not empty
  replaces the name of every player with that id by the trimmed name; ids, colours, teams,
  the other players, the order and the team collection are unchanged. Submitting a
  whitespace-only name returns the state it was given, for a player's editor and for a
  team's. A team's editor with a proper name changes the names of the teams with that id
  and nothing else.
\<close>

theorem rename_frame:
  "(trim newName \<noteq> [] \<longrightarrow>
      players (Nametag_handleSubmit pid newName s) =
        map (\<lambda>p. if Player.id' p = pid then p\<lparr>Player.name := trim newName\<rparr> else p) (players s)
      \<and> length (players (Nametag_handleSubmit pid newName s)) = length (players s)
      \<and> (\<forall>i < length (players s).
            Player.id' (players (Nametag_handleSubmit pid newName s) ! i)
              = Player.id' (players s ! i)
          \<and> color (players (Nametag_handleSubmit pid newName s) ! i) = color (players s ! i)
          \<and> teamId (players (Nametag_handleSubmit pid newName s) ! i) = teamId (players s ! i)
          \<and> Player.name (players (Nametag_handleSubmit pid newName s) ! i) =
              (if Player.id' (players s ! i) = pid then trim newName
               else Player.name (players s ! i)))
      \<and> teams (Nametag_handleSubmit pid newName s) = teams s
      \<and> teams (TeamColumn_handleSubmit (Some (handleUpdateTeamName tid)) newName s) =
          map (\<lambda>t. if Team.id' t = tid then t\<lparr>Team.name := trim newName\<rparr> else t) (teams s)
      \<and> players (TeamColumn_handleSubmit (Some (handleUpdateTeamName tid)) newName s)
          = players s)
   \<and> (list_all isWhiteSpace newName \<longrightarrow>
        Nametag_handleSubmit pid newName s = s
      \<and> TeamColumn_handleSubmit (Some (handleUpdateTeamName tid)) newName s = s)"
  by (simp add: Nametag_handleSubmit_def TeamColumn_handleSubmit_def
      handleUpdatePlayerName_def handleUpdateTeamName_def trim_whitespace_only)

theorem rename_frame_witness:
  "trim (str '' Zed '') \<noteq> []
   \<and> players (Nametag_handleSubmit (str ''p2'') (str '' Zed '') demoState) =
       [\<lparr>Player.id' = str ''p1'', name = str ''Astra'', color = str ''#ff7b7b'', teamId = None\<rparr>,
        \<lparr>Player.id' = str ''p2'', name = str ''Zed'', color = str ''#ffd36b'',
          teamId = Some (str ''alpha'')\<rparr>]
   \<and> teams (Nametag_handleSubmit (str ''p2'') (str '' Zed '') demoState) = initialTeams
   \<and> list_all isWhiteSpace (str ''  '')
   \<and> Nametag_handleSubmit (str ''p2'') (str ''  '') demoState = demoState
   \<and> TeamColumn_handleSubmit (Some (handleUpdateTeamName (str ''alpha''))) (str ''  '') demoState
       = demoState"
  using rename_frame [of "str '' Zed ''" "str ''p2''" demoState "str ''alpha''"]
    rename_frame [of "str ''  ''" "str ''p2''" demoState "str ''alpha''"]
  by (simp add: demo_eval)

text \<open>
  Claim C2. Remove Team returns one state in which the teams with the given id are gone,
  the other teams are kept in order, and exactly the players that were assigned to that id
  have no team; ids, names, colours, the other players' teams and the order of the players
  are unchanged. The number of players that changed is the number that were assigned.
\<close>

theorem handleRemoveTeam_cascade:
  "teams (handleRemoveTeam tid s) = filter (\<lambda>t. Team.id' t \<noteq> tid) (teams s)
   \<and> tid \<notin> Team.id' ` set (teams (handleRemoveTeam tid s))
   \<and> players (handleRemoveTeam tid s) =
        map (\<lambda>p. if teamId p = Some tid then p\<lparr>teamId := None\<rparr> else p) (players s)
   \<and> length (players (handleRemoveTeam tid s)) = length (players s)
   \<and> (\<forall>i < length (players s).
         Player.id' (players (handleRemoveTeam tid s) ! i) = Player.id' (players s ! i)
       \<and> Player.name (players (handleRemoveTeam tid s) ! i) = Player.name (players s ! i)
       \<and> color (players (handleRemoveTeam tid s) ! i) = color (players s ! i)
       \<and> teamId (players (handleRemoveTeam tid s) ! i) =
           (if teamId (players s ! i) = Some tid then None else teamId (players s ! i)))
   \<and> length (filter (\<lambda>(p, p'). p' \<noteq> p) (zip (players s) (players (handleRemoveTeam tid s))))
       = length (filter (\<lambda>p. teamId p = Some tid) (players s))"
  by (auto simp add: handleRemoveTeam_def changed_by_cascade)

theorem handleRemoveTeam_cascade_witness:
  "teams (handleRemoveTeam (str ''alpha'') demoState) =
     [\<lparr>Team.id' = str ''bravo'', name = str ''Team Bravo'', accent = str ''#6dd5ed''\<rparr>]
   \<and> players (handleRemoveTeam (str ''alpha'') demoState) =
       [\<lparr>Player.id' = str ''p1'', name = str ''Astra'', color = str ''#ff7b7b'', teamId = None\<rparr>,
        \<lparr>Player.id' = str ''p2'', name = str ''Blitz'', color = str ''#ffd36b'', teamId = None\<rparr>]
   \<and> length (filter (\<lambda>p. teamId p = Some (str ''alpha'')) (players demoState)) = 1"
  using handleRemoveTeam_cascade [of "str ''alpha''" demoState]
  by (simp add: demo_eval)



section \<open>Referential integrity\<close>

lemma refIntegrity_iff:
  "refIntegrity s \<longleftrightarrow>
     (\<forall>p \<in> set (players s). \<forall>t. teamId p = Some t \<longrightarrow> t \<in> Team.id' ` set (teams s))"
  by (auto simp: refIntegrity_def list_all_iff split: option.splits)

lemma seededPlayers_unassigned: "p \<in> set (seededPlayers mk) \<Longrightarrow> teamId p = None"
  by (auto simp: seededPlayers_def)

lemma refIntegrity_seed: "refIntegrity (seedState mk)"
  by (auto simp add: refIntegrity_iff seedState_def dest: seededPlayers_unassigned)

lemma refIntegrity_handleCreatePlayer: "refIntegrity s \<Longrightarrow> refIntegrity (handleCreatePlayer i s)"
  by (auto simp: refIntegrity_iff handleCreatePlayer_def Let_def)

lemma refIntegrity_handleCreateTeam: "refIntegrity s \<Longrightarrow> refIntegrity (handleCreateTeam i s)"
  by (auto simp: refIntegrity_iff handleCreateTeam_def Let_def)

lemma refIntegrity_onDrop:
  "refIntegrity s \<Longrightarrow> tid \<in> set (zoneTargets s) \<Longrightarrow> refIntegrity (onDrop tid payload s)"
  by (auto simp: refIntegrity_iff onDrop_def handleDrop_def zoneTargets_def)

lemma refIntegrity_handleRemovePlayer: "refIntegrity s \<Longrightarrow> refIntegrity (handleRemovePlayer i s)"
  by (auto simp: refIntegrity_iff handleRemovePlayer_def)

lemma refIntegrity_Nametag: "refIntegrity s \<Longrightarrow> refIntegrity (Nametag_handleSubmit i n s)"
  by (auto simp: refIntegrity_iff Nametag_handleSubmit_def handleUpdatePlayerName_def)

lemma refIntegrity_handleRemoveTeam: "refIntegrity s \<Longrightarrow> refIntegrity (handleRemoveTeam i s)"
  by (auto simp: refIntegrity_iff handleRemoveTeam_def)

lemma ids_after_rename:
  "Team.id' ` set (map (\<lambda>team. if Team.id' team = tid then team\<lparr>Team.name := n\<rparr> else team) ts)
   = Team.id' ` set ts"
  by (induction ts) auto

lemma refIntegrity_TeamColumn:
  "refIntegrity s \<Longrightarrow>
   refIntegrity (TeamColumn_handleSubmit (Some (handleUpdateTeamName tid)) n s)"
  by (simp add: refIntegrity_iff TeamColumn_handleSubmit_def handleUpdateTeamName_def
      ids_after_rename del: set_map)

lemma refIntegrity_handleReset: "refIntegrity s \<Longrightarrow> refIntegrity (handleReset mk c s)"
  by (auto simp: refIntegrity_iff handleReset_def dest: seededPlayers_unassigned)

lemma refIntegrity_hover: "refIntegrity (s\<lparr>hoveredZone := h\<rparr>) = refIntegrity s"
  by (simp add: refIntegrity_iff)

lemma refIntegrity_inputs:
  "refIntegrity (s\<lparr>playerName := v\<rparr>) = refIntegrity s"
  "refIntegrity (s\<lparr>teamName := v\<rparr>) = refIntegrity s"
  by (simp_all add: refIntegrity_iff)

lemma refIntegrity_dispatch:
  assumes "refIntegrity s" and "offered s e"
  shows "refIntegrity (dispatch mk e s)"
  using assms
  by (cases e)
    (simp_all add: refIntegrity_inputs refIntegrity_hover onDragEnter_def onDragLeave_def
      refIntegrity_handleCreatePlayer refIntegrity_handleCreateTeam refIntegrity_onDrop
      refIntegrity_handleRemovePlayer refIntegrity_Nametag refIntegrity_handleRemoveTeam
      refIntegrity_TeamColumn refIntegrity_handleReset)

lemma reachable_run:
  "reachable mk s \<Longrightarrow> allOffered mk s es \<Longrightarrow> reachable mk (fold (dispatch mk) es s)"
  by (induction es arbitrary: s) (auto intro: reachable.step)

lemma demoRun_result:
  "fold (dispatch demoIds) demoRun (seedState demoIds) =
     \<lparr>players = (seededPlayers demoIds)
        [1 := (seededPlayers demoIds ! 1)\<lparr>teamId := Some (str ''alpha'')\<rparr>],
      teams = initialTeams, playerName = [], teamName = [], hoveredZone = None\<rparr>"
  by (simp add: demoRun_def seedState_def handleCreateTeam_def onDrop_def handleDrop_def
      handleRemoveTeam_def Let_def seededPlayers_def seedNames_def demoIds_def digits.simps
      str_def upt_rec_numeral initialTeams_def trim_def isWhiteSpace_def palette_def)

lemma demoRun_offered: "allOffered demoIds (seedState demoIds) demoRun"
  by (simp add: demoRun_def seedState_def zoneTargets_def handleCreateTeam_def onDrop_def
      handleDrop_def Let_def initialTeams_def trim_def isWhiteSpace_def str_def demoIds_def)

text \<open>
  Claim C1. In every state reached from the seed state by events of the view (creating,
  renaming and removing players and teams, drops on rendered zones, typing, hovering and
  resets), every player's team is none or the id of a team of the current collection.
\<close>

theorem referential_integrity:
  assumes "reachable mk s"
  shows "\<forall>p \<in> set (players s).
           teamId p = None \<or> (\<exists>t \<in> set (teams s). teamId p = Some (Team.id' t))"
proof -
  from assms have "refIntegrity s"
    by (induction rule: reachable.induct) (simp_all add: refIntegrity_seed refIntegrity_dispatch)
  then have r: "\<forall>p \<in> set (players s). \<forall>t. teamId p = Some t
                  \<longrightarrow> t \<in> Team.id' ` set (teams s)"
    by (simp add: refIntegrity_iff)
  show ?thesis
  proof
    fix p
    assume p: "p \<in> set (players s)"
    show "teamId p = None \<or> (\<exists>t \<in> set (teams s). teamId p = Some (Team.id' t))"
    proof (cases "teamId p")
      case None
      then show ?thesis by simp
    next
      case (Some tid)
      with r p have "tid \<in> Team.id' ` set (teams s)" by blast
      with Some show ?thesis by auto
    qed
  qed
qed

theorem referential_integrity_witness:
  "reachable demoIds (fold (dispatch demoIds) demoRun (seedState demoIds))
   \<and> map teamId (players (fold (dispatch demoIds) demoRun (seedState demoIds)))
       = None # Some (str ''alpha'') # replicate 11 None
   \<and> map Team.id' (teams (fold (dispatch demoIds) demoRun (seedState demoIds)))
       = [str ''alpha'', str ''bravo'']"
proof -
  have r: "reachable demoIds (fold (dispatch demoIds) demoRun (seedState demoIds))"
    by (rule reachable_run [OF reachable.seed demoRun_offered])
  from referential_integrity [OF r] r show ?thesis
    by (simp add: demoRun_result seededPlayers_def seedNames_def upt_rec_numeral
        initialTeams_def eval_nat_numeral)
qed

section \<open>Roster projector: results\<close>

subsection \<open>Sorting\<close>

lemma mset_insertBy: "mset (insertBy cmp x ys) = add_mset x (mset ys)"
  by (induction ys) simp_all

lemma mset_sortBy: "mset (sortBy cmp xs) = mset xs"
  by (induction xs) (simp_all add: mset_insertBy)

lemma set_insertBy: "set (insertBy cmp x ys) = insert x (set ys)"
  by (induction ys) auto

lemma sorted_insertBy:
  assumes total: "\<And>a b. cmp a b \<le> 0 \<or> cmp b a \<le> 0"
    and trans: "\<And>a b c. cmp a b \<le> 0 \<Longrightarrow> cmp b c \<le> 0 \<Longrightarrow> cmp a c \<le> 0"
    and "sorted_wrt (\<lambda>a b. cmp a b \<le> 0) ys"
  shows "sorted_wrt (\<lambda>a b. cmp a b \<le> 0) (insertBy cmp x ys)"
  using assms(3)
proof (induction ys)
  case Nil
  show ?case by simp
next
  case (Cons y ys)
  show ?case
  proof (cases "cmp x y \<le> 0")
    case True
    with Cons.prems trans have "\<forall>z \<in> set ys. cmp x z \<le> 0"
      by auto
    with True Cons.prems show ?thesis by simp
  next
    case False
    with total have "cmp y x \<le> 0" by blast
    with False Cons show ?thesis
      by (auto simp: set_insertBy)
  qed
qed

lemma sorted_sortBy:
  assumes "\<And>a b. cmp a b \<le> 0 \<or> cmp b a \<le> 0"
    and "\<And>a b c. cmp a b \<le> 0 \<Longrightarrow> cmp b c \<le> 0 \<Longrightarrow> cmp a c \<le> 0"
  shows "sorted_wrt (\<lambda>a b. cmp a b \<le> 0) (sortBy cmp xs)"
  by (induction xs) (simp_all add: sorted_insertBy assms)

lemma consistent_byName:
  assumes "consistent cmp"
  shows "byName cmp a b \<le> 0 \<or> byName cmp b a \<le> 0"
    and "byName cmp a b \<le> 0 \<Longrightarrow> byName cmp b c \<le> 0 \<Longrightarrow> byName cmp a c \<le> 0"
  using assms unfolding consistent_def byName_def by blast+

lemma sorted_bucket:
  "consistent cmp \<Longrightarrow>
   sorted_wrt (\<lambda>a b. cmp (Player.name a) (Player.name b) \<le> 0) (sortBy (byName cmp) xs)"
  using sorted_sortBy [of "byName cmp" xs] consistent_byName [of cmp]
  by (simp add: byName_def)

subsection \<open>Buckets\<close>

lemma fold_setEmpty:
  assumes "str ''__proto__'' \<notin> Team.id' ` set ts" and "plainBuckets obj"
    and "\<forall>k. map_of (own obj) k \<in> {None, Some []}"
  shows "plainBuckets (fold (\<lambda>team. setEmpty (Team.id' team)) ts obj)
       \<and> fst ` set (own (fold (\<lambda>team. setEmpty (Team.id' team)) ts obj))
           = fst ` set (own obj) \<union> Team.id' ` set ts
       \<and> (\<forall>k. map_of (own (fold (\<lambda>team. setEmpty (Team.id' team)) ts obj)) k \<in> {None, Some []})"
  using assms
proof (induction ts arbitrary: obj)
  case Nil
  then show ?case by simp
next
  case (Cons t ts)
  let ?obj = "setEmpty (Team.id' t) obj"
  from Cons.prems have shape: "?obj = obj\<lparr>own := AList.update (Team.id' t) [] (own obj)\<rparr>"
    by (auto simp: setEmpty_def)
  have 1: "plainBuckets ?obj"
    using Cons.prems(2) by (simp add: shape plainBuckets_def distinct_update)
  have 2: "\<forall>k. map_of (own ?obj) k \<in> {None, Some []}"
    using Cons.prems(3) by (simp add: shape update_conv')
  have 3: "fst ` set (own ?obj) = insert (Team.id' t) (fst ` set (own obj))"
    by (simp add: shape dom_update)
  from Cons.prems(1) have 4: "str ''__proto__'' \<notin> Team.id' ` set ts" by simp
  from Cons.IH [OF 4 1 2] 3 show ?case by auto
qed

lemma proto_is_inherited: "str ''__proto__'' \<in> set objectPrototypeNames"
  by (simp add: objectPrototypeNames_def)

lemma addPlayer_plain:
  assumes "plainBuckets obj"
    and "bucketOf p \<in> fst ` set (own obj) \<or> bucketOf p \<notin> set objectPrototypeNames"
  shows "addPlayer p obj =
           Inr (obj\<lparr>own := AList.update (bucketOf p) (ownBucket obj (bucketOf p) @ [p]) (own obj)\<rparr>)"
proof (cases "map_of (own obj) (bucketOf p)")
  case None
  then have "bucketOf p \<notin> fst ` set (own obj)"
    by (simp add: map_of_eq_None_iff)
  with assms(2) have fresh: "bucketOf p \<notin> set objectPrototypeNames" by blast
  with proto_is_inherited have np: "bucketOf p \<noteq> str ''__proto__''" by auto
  from assms(1) have "prototype obj = ObjectPrototype" by (simp add: plainBuckets_def)
  with None fresh have und: "getProp obj (bucketOf p) = Undefined"
    by (simp add: getProp_def)
  have "getProp (setEmpty (bucketOf p) obj) (bucketOf p) = OwnArray []"
    using np by (simp add: setEmpty_def getProp_def update_conv')
  with und np None show ?thesis
    by (simp add: addPlayer_def Let_def falsy_def pushPlayer_def setEmpty_def ownBucket_def)
next
  case (Some a)
  then have "getProp obj (bucketOf p) = OwnArray a"
    by (simp add: getProp_def)
  with Some show ?thesis
    by (simp add: addPlayer_def Let_def falsy_def pushPlayer_def ownBucket_def)
qed

lemma ownBucket_update:
  "ownBucket (obj\<lparr>own := AList.update k v (own obj)\<rparr>) k' = (if k' = k then v else ownBucket obj k')"
  by (simp add: ownBucket_def update_conv')

lemma addPlayers_plain:
  assumes "plainBuckets obj"
    and "\<forall>p \<in> set ps. bucketOf p \<in> fst ` set (own obj) \<or> bucketOf p \<notin> set objectPrototypeNames"
  shows "\<exists>obj'. addPlayers ps obj = Inr obj' \<and> plainBuckets obj'
           \<and> fst ` set (own obj') = fst ` set (own obj) \<union> bucketOf ` set ps
           \<and> (\<forall>k. ownBucket obj' k = ownBucket obj k @ filter (\<lambda>p. bucketOf p = k) ps)"
  using assms
proof (induction ps arbitrary: obj)
  case Nil
  then show ?case by simp
next
  case (Cons p ps)
  let ?obj1 = "obj\<lparr>own := AList.update (bucketOf p) (ownBucket obj (bucketOf p) @ [p]) (own obj)\<rparr>"
  from Cons.prems have first: "addPlayer p obj = Inr ?obj1"
    by (simp add: addPlayer_plain)
  have plain1: "plainBuckets ?obj1"
    using Cons.prems(1) by (simp add: plainBuckets_def distinct_update)
  have keys1: "fst ` set (own ?obj1) = insert (bucketOf p) (fst ` set (own obj))"
    by (simp add: dom_update)
  have safe1: "\<forall>q \<in> set ps. bucketOf q \<in> fst ` set (own ?obj1)
                 \<or> bucketOf q \<notin> set objectPrototypeNames"
    using Cons.prems(2) keys1 by auto
  from Cons.IH [OF plain1 safe1] obtain obj' where
    r: "addPlayers ps ?obj1 = Inr obj'" "plainBuckets obj'"
       "fst ` set (own obj') = fst ` set (own ?obj1) \<union> bucketOf ` set ps"
       "\<forall>k. ownBucket obj' k = ownBucket ?obj1 k @ filter (\<lambda>p. bucketOf p = k) ps"
    by blast
  have "addPlayers (p # ps) obj = Inr obj'"
    using first r(1) by simp
  moreover have "fst ` set (own obj') = fst ` set (own obj) \<union> bucketOf ` set (p # ps)"
    using r(3) keys1 by auto
  moreover have "\<forall>k. ownBucket obj' k = ownBucket obj k @ filter (\<lambda>q. bucketOf q = k) (p # ps)"
    using r(4) by (simp add: ownBucket_update)
  ultimately show ?case using r(2) by blast
qed

lemma ownBucket_sorted:
  "ownBucket (obj\<lparr>own := map (\<lambda>(k, lst). (k, f lst)) (own obj)\<rparr>) k =
     (if k \<in> fst ` set (own obj) then f (ownBucket obj k) else [])"
proof (cases "map_of (own obj) k")
  case None
  then have "k \<notin> fst ` set (own obj)"
    by (simp add: map_of_eq_None_iff)
  with None show ?thesis
    by (simp add: ownBucket_def map_of_map)
next
  case (Some a)
  then have "k \<in> fst ` set (own obj)"
    by (metis map_of_eq_None_iff option.distinct(1))
  with Some show ?thesis
    by (simp add: ownBucket_def map_of_map)
qed

lemma keys_sorted: "map (fst \<circ> (\<lambda>(k, lst). (k, f lst))) al = map fst al"
  by (induction al) auto

lemma mset_concat_buckets:
  assumes "distinct (map fst al)"
  shows "mset (concat (map snd al)) =
     (\<Sum>k\<leftarrow>map fst al. mset (case map_of al k of Some a \<Rightarrow> a | None \<Rightarrow> []))"
proof -
  have "map (\<lambda>k. mset (case map_of al k of Some a \<Rightarrow> a | None \<Rightarrow> [])) (map fst al)
      = map mset (map snd al)"
    using assms by (auto simp: map_of_eq_Some_iff [THEN iffD2])
  then show ?thesis
    by (simp only: mset_concat)
qed

lemma sum_single_key:
  "distinct ks \<Longrightarrow> b \<in> set ks \<Longrightarrow>
   (\<Sum>k\<leftarrow>ks. if b = k then {#p#} else {#}) = {#p#}"
proof (induction ks)
  case Nil
  then show ?case by simp
next
  case (Cons k ks)
  have none: "c \<notin> set ks' \<Longrightarrow> (\<Sum>k\<leftarrow>ks'. if c = k then {#p#} else {#}) = {#}" for ks' c
    by (induction ks') auto
  from Cons show ?case by (auto simp: none)
qed

lemma buckets_cover:
  "distinct ks \<Longrightarrow> bucketOf ` set ps \<subseteq> set ks \<Longrightarrow>
   (\<Sum>k\<leftarrow>ks. mset (filter (\<lambda>p. bucketOf p = k) ps)) = mset ps"
proof (induction ps)
  case Nil
  show ?case by (induction ks) auto
next
  case (Cons p ps)
  have "(\<Sum>k\<leftarrow>ks. mset (filter (\<lambda>q. bucketOf q = k) (p # ps)))
      = (\<Sum>k\<leftarrow>ks. (if bucketOf p = k then {#p#} else {#}) + mset (filter (\<lambda>q. bucketOf q = k) ps))"
    by (intro arg_cong [where f = sum_list] map_cong) auto
  also have "\<dots> = (\<Sum>k\<leftarrow>ks. if bucketOf p = k then {#p#} else {#})
                 + (\<Sum>k\<leftarrow>ks. mset (filter (\<lambda>q. bucketOf q = k) ps))"
    by (simp add: sum_list_addf)
  also have "\<dots> = {#p#} + mset ps"
    using Cons by (simp add: sum_single_key)
  finally show ?case by simp
qed

lemma codeUnitCompare_total: "codeUnitCompare a b \<le> 0 \<or> codeUnitCompare b a \<le> 0"
  by (induction a b rule: codeUnitCompare.induct) auto

lemma codeUnitCompare_trans:
  "codeUnitCompare a b \<le> 0 \<Longrightarrow> codeUnitCompare b c \<le> 0 \<Longrightarrow> codeUnitCompare a c \<le> 0"
proof (induction a b arbitrary: c rule: codeUnitCompare.induct)
  case 1
  then show ?case by simp
next
  case (2 y ys)
  then show ?case by (cases c) auto
next
  case (3 x xs)
  then show ?case by simp
next
  case (4 x xs y ys)
  show ?case
  proof (cases c)
    case Nil
    with 4 show ?thesis by simp
  next
    case (Cons z zs)
    with "4.prems" "4.IH" [of zs] show ?thesis
      by (auto split: if_splits)
  qed
qed

lemma consistent_codeUnitCompare: "consistent codeUnitCompare"
  unfolding consistent_def using codeUnitCompare_total codeUnitCompare_trans by blast

text \<open>
  The projector on inputs that stay clear of inherited property names: no team has the id
  \<open>__proto__\<close>, and every player's bucket key is the bench, a team id, or a name
  that \<open>Object.prototype\<close> does not carry. With a consistent comparator it returns an
  object whose own keys are the bench, the team ids and the players' bucket keys; the
  bucket at a key holds exactly the players with that key, stably sorted by name; the
  buckets together hold every player exactly once.
\<close>

theorem roster_partition:
  assumes "consistent cmp"
    and "str ''__proto__'' \<notin> Team.id' ` set ts"
    and "\<forall>p \<in> set ps. bucketOf p \<in> insert (str ''bench'') (Team.id' ` set ts)
                        \<or> bucketOf p \<notin> set objectPrototypeNames"
  shows "\<exists>r. roster cmp ps ts = Inr r
           \<and> prototype r = ObjectPrototype
           \<and> distinct (map fst (own r))
           \<and> fst ` set (own r) = insert (str ''bench'') (Team.id' ` set ts \<union> bucketOf ` set ps)
           \<and> (\<forall>k. ownBucket r k = sortBy (byName cmp) (filter (\<lambda>p. bucketOf p = k) ps))
           \<and> (\<forall>k. sorted_wrt (\<lambda>a b. cmp (Player.name a) (Player.name b) \<le> 0) (ownBucket r k))
           \<and> (\<forall>k. mset (ownBucket r k) = filter_mset (\<lambda>p. bucketOf p = k) (mset ps))
           \<and> mset (concat (map snd (own r))) = mset ps"
proof -
  let ?start = "\<lparr>own = [(str ''bench'', [])], prototype = ObjectPrototype\<rparr>"
  let ?obj1 = "fold (\<lambda>team. setEmpty (Team.id' team)) ts ?start"
  have "plainBuckets ?start" and "\<forall>k. map_of (own ?start) k \<in> {None, Some []}"
    by (simp_all add: plainBuckets_def)
  from fold_setEmpty [OF assms(2) this]
  have plain1: "plainBuckets ?obj1"
    and keys1: "fst ` set (own ?obj1) = insert (str ''bench'') (Team.id' ` set ts)"
    and empty1: "\<forall>k. map_of (own ?obj1) k \<in> {None, Some []}"
    by auto
  from empty1 have bucket1: "ownBucket ?obj1 k = []" for k
    by (cases "map_of (own ?obj1) k") (auto simp: ownBucket_def dest: spec [of _ k])
  from assms(3) keys1
  have safe: "\<forall>p \<in> set ps. bucketOf p \<in> fst ` set (own ?obj1)
                \<or> bucketOf p \<notin> set objectPrototypeNames"
    by simp
  from addPlayers_plain [OF plain1 safe] obtain obj where
    run: "addPlayers ps ?obj1 = Inr obj" and plain: "plainBuckets obj"
    and keys: "fst ` set (own obj) = fst ` set (own ?obj1) \<union> bucketOf ` set ps"
    and buckets: "\<forall>k. ownBucket obj k = ownBucket ?obj1 k @ filter (\<lambda>p. bucketOf p = k) ps"
    by blast
  let ?r = "obj\<lparr>own := map (\<lambda>(k, lst). (k, sortBy (byName cmp) lst)) (own obj)\<rparr>"
  have res: "roster cmp ps ts = Inr ?r"
    using run by (simp add: roster_def)
  have proto: "prototype ?r = ObjectPrototype"
    using plain by (simp add: plainBuckets_def)
  have dist: "distinct (map fst (own ?r))"
    using plain by (simp add: plainBuckets_def keys_sorted)
  have keysr: "fst ` set (own ?r) = insert (str ''bench'') (Team.id' ` set ts \<union> bucketOf ` set ps)"
  proof -
    have kr: "map fst (own ?r) = map fst (own obj)"
      by (simp add: keys_sorted)
    have "fst ` set (own ?r) = set (map fst (own ?r))" by (simp only: set_map)
    also have "\<dots> = set (map fst (own obj))" by (simp only: kr)
    also have "\<dots> = fst ` set (own obj)" by (simp only: set_map)
    finally show ?thesis using keys keys1 by auto
  qed
  have content: "ownBucket ?r k = sortBy (byName cmp) (filter (\<lambda>p. bucketOf p = k) ps)" for k
  proof (cases "k \<in> fst ` set (own obj)")
    case True
    then show ?thesis
      using buckets by (simp add: ownBucket_sorted bucket1)
  next
    case False
    with keys have "filter (\<lambda>p. bucketOf p = k) ps = []"
      by (auto simp: filter_empty_conv)
    with False show ?thesis
      by (simp add: ownBucket_sorted)
  qed
  have sorted: "sorted_wrt (\<lambda>a b. cmp (Player.name a) (Player.name b) \<le> 0) (ownBucket ?r k)" for k
    by (simp only: content sorted_bucket [OF assms(1)])
  have msets: "mset (ownBucket ?r k) = filter_mset (\<lambda>p. bucketOf p = k) (mset ps)" for k
    by (simp only: content mset_sortBy mset_filter)
  have "mset (concat (map snd (own ?r)))
      = (\<Sum>k\<leftarrow>map fst (own ?r). mset (ownBucket ?r k))"
    using mset_concat_buckets [OF dist] by (simp add: ownBucket_def)
  also have "\<dots> = (\<Sum>k\<leftarrow>map fst (own ?r). mset (filter (\<lambda>p. bucketOf p = k) ps))"
    by (simp only: content mset_sortBy)
  also have "\<dots> = mset ps"
  proof (rule buckets_cover [OF dist])
    show "bucketOf ` set ps \<subseteq> set (map fst (own ?r))"
      using keysr by auto
  qed
  finally have whole: "mset (concat (map snd (own ?r))) = mset ps" .
  from res proto dist keysr content sorted msets whole show ?thesis
    by blast
qed

theorem roster_partition_witness:
  "consistent codeUnitCompare
   \<and> str ''__proto__'' \<notin> Team.id' ` set initialTeams
   \<and> list_all (\<lambda>p. bucketOf p \<in> insert (str ''bench'') (Team.id' ` set initialTeams))
        (players demoState @ [aeroPlayer])
   \<and> roster codeUnitCompare (players demoState @ [aeroPlayer]) initialTeams =
       Inr \<lparr>own = [(str ''bench'', [aeroPlayer, players demoState ! 0]),
                    (str ''alpha'', [players demoState ! 1]), (str ''bravo'', [])],
            prototype = ObjectPrototype\<rparr>"
  using roster_partition [of codeUnitCompare initialTeams "players demoState @ [aeroPlayer]"]
    consistent_codeUnitCompare
  by (simp add: roster_def demo_eval aeroPlayer_def setEmpty_def addPlayer_def byName_def
      bucketOf_def getProp_def falsy_def pushPlayer_def objectPrototypeNames_def Let_def)

text \<open>
  Claim C3. The claim is about every players list and every teams list. The projector
  tests a bucket's presence by reading the property, and the read also finds inherited
  properties: for a player whose team id is \<open>constructor\<close>, with no team of that id,
  the read yields the inherited function, no bucket is created, and the call of \<open>push\<close>
  on that function raises a TypeError. The projector then returns no mapping at all.
\<close>

theorem roster_inherited_key_raises:
  "roster cmp [constructorPlayer] initialTeams = Inl TypeError"
  by (simp add: roster_def constructorPlayer_def initialTeams_def setEmpty_def addPlayer_def
      bucketOf_def getProp_def falsy_def pushPlayer_def objectPrototypeNames_def str_def Let_def)

section \<open>Persistence adapter: results\<close>

lemma str_separators:
  "str ''; '' = [0x3B, 0x20]" "str ''='' = [0x3D]" "str '';'' = [0x3B]"
  by (simp_all add: str_def)

lemma prefixed_cookieString:
  "jar \<noteq> [] \<Longrightarrow> str ''; '' @ cookieString jar = concat (map entry jar)"
  by (induction jar rule: cookieString.induct) (simp_all add: entry_def)

lemma splitFrom_skip:
  assumes "0x3B \<notin> set t"
  shows "splitFrom (0x3B # st) acc (t @ rest) = splitFrom (0x3B # st) (rev t @ acc) rest"
  using assms
proof (induction t arbitrary: acc)
  case Nil
  show ?case by simp
next
  case (Cons c t)
  then have "c \<noteq> 0x3B" by auto
  with Cons show ?case by simp
qed

lemma splitFrom_match:
  "sep \<noteq> [] \<Longrightarrow> splitFrom sep acc (sep @ rest) = rev acc # splitFrom sep [] rest"
  by (cases sep) simp_all

lemma takeWhile_upto:
  "c \<notin> set xs \<Longrightarrow> takeWhile (\<lambda>x. x \<noteq> c) (xs @ c # ys) = xs"
  by (induction xs) auto

lemma name_prefix_unique:
  assumes "0x3D \<notin> set n" and "0x3D \<notin> set nm"
    and "take (length (nm @ [0x3D])) (n @ 0x3D # w) = nm @ [0x3D :: uchar]"
  shows "n = nm"
proof -
  from assms(3) have "n @ 0x3D # w = (nm @ [0x3D]) @ drop (length (nm @ [0x3D])) (n @ 0x3D # w)"
    by (metis append_take_drop_id)
  then have "takeWhile (\<lambda>x. x \<noteq> 0x3D) (n @ 0x3D # w)
           = takeWhile (\<lambda>x. x \<noteq> 0x3D) (nm @ 0x3D # drop (length (nm @ [0x3D])) (n @ 0x3D # w))"
    by simp
  with assms(1,2) show ?thesis
    by (simp add: takeWhile_upto)
qed

lemma splitFrom_other_entry:
  assumes "0x3B \<notin> set n" "0x3D \<notin> set n" "0x3B \<notin> set v" "0x3D \<notin> set nm" "n \<noteq> nm"
  shows "splitFrom (str ''; '' @ nm @ str ''='') acc (entry (n, v) @ rest)
       = splitFrom (str ''; '' @ nm @ str ''='') (rev (entry (n, v)) @ acc) rest"
proof -
  let ?sep = "0x3B # 0x20 # nm @ [0x3D :: uchar]"
  let ?tail = "0x20 # n @ 0x3D # v"
  have nomatch: "take (length ?sep) (0x3B # ?tail @ rest) \<noteq> ?sep"
  proof
    assume "take (length ?sep) (0x3B # ?tail @ rest) = ?sep"
    then have "take (length (nm @ [0x3D])) (n @ 0x3D # (v @ rest)) = nm @ [0x3D]"
      by simp
    from name_prefix_unique [OF assms(2,4) this] assms(5) show False by simp
  qed
  have clean: "0x3B \<notin> set ?tail"
    using assms(1,3) by simp
  have "splitFrom ?sep acc (0x3B # ?tail @ rest) = splitFrom ?sep (0x3B # acc) (?tail @ rest)"
    using nomatch by (subst splitFrom.simps) (simp only: if_False)
  also have "\<dots> = splitFrom ?sep (rev ?tail @ 0x3B # acc) rest"
    by (rule splitFrom_skip [OF clean])
  finally show ?thesis
    by (simp add: entry_def str_separators)
qed

lemma splitFrom_other_entries:
  assumes "cleanJar jar" and "nm \<notin> fst ` set jar" and "0x3D \<notin> set nm"
  shows "splitFrom (str ''; '' @ nm @ str ''='') acc (concat (map entry jar) @ rest)
       = splitFrom (str ''; '' @ nm @ str ''='') (rev (concat (map entry jar)) @ acc) rest"
  using assms(1,2)
proof (induction jar arbitrary: acc)
  case Nil
  show ?case by simp
next
  case (Cons nv jar)
  obtain n v where nv: "nv = (n, v)" by (cases nv)
  from Cons.prems nv have c: "0x3B \<notin> set n" "0x3D \<notin> set n" "0x3B \<notin> set v" "n \<noteq> nm"
    and rest: "cleanJar jar" "nm \<notin> fst ` set jar"
    by (auto simp: cleanJar_def)
  show ?case
    using splitFrom_other_entry [OF c(1,2,3) assms(3) c(4)] Cons.IH [OF rest]
    by (simp add: nv)
qed

lemma slot_once:
  "slotValues jar nm = [v] \<Longrightarrow>
   \<exists>pre post. jar = pre @ (nm, v) # post \<and> nm \<notin> fst ` set pre \<and> nm \<notin> fst ` set post"
proof (induction jar)
  case Nil
  then show ?case by (simp add: slotValues_def)
next
  case (Cons e jar)
  obtain n w where e: "e = (n, w)" by (cases e)
  show ?case
  proof (cases "n = nm")
    case True
    with Cons.prems e have "w = v" and "filter (\<lambda>(n, v). n = nm) jar = []"
      by (simp_all add: slotValues_def)
    then have "nm \<notin> fst ` set jar"
      by (auto simp: filter_empty_conv)
    with True e \<open>w = v\<close> have "e # jar = [] @ (nm, v) # jar \<and> nm \<notin> fst ` set [] \<and> nm \<notin> fst ` set jar"
      by simp
    then show ?thesis by blast
  next
    case False
    with Cons.prems e have "slotValues jar nm = [v]"
      by (simp add: slotValues_def)
    from Cons.IH [OF this] obtain pre post where
      "jar = pre @ (nm, v) # post" "nm \<notin> fst ` set pre" "nm \<notin> fst ` set post"
      by blast
    with False e have "e # jar = (e # pre) @ (nm, v) # post \<and> nm \<notin> fst ` set (e # pre)
        \<and> nm \<notin> fst ` set post"
      by auto
    then show ?thesis by blast
  qed
qed

lemma slot_absent: "slotValues jar nm = [] \<longleftrightarrow> nm \<notin> fst ` set jar"
  by (force simp: slotValues_def filter_empty_conv)

lemma split_cookie_once:
  assumes "cleanJar pre" "cleanJar post" "nm \<notin> fst ` set pre" "nm \<notin> fst ` set post"
    and "0x3B \<notin> set v" "0x3D \<notin> set nm"
  shows "splitString (str ''; '' @ cookieString (pre @ (nm, v) # post)) (str ''; '' @ nm @ str ''='')
       = [concat (map entry pre), v @ concat (map entry post)]"
proof -
  let ?sep = "str ''; '' @ nm @ str ''=''"
  let ?pre = "concat (map entry pre)"
  let ?post = "concat (map entry post)"
  have sep: "?sep = 0x3B # 0x20 # nm @ [0x3D]"
    by (simp add: str_separators)
  have whole: "str ''; '' @ cookieString (pre @ (nm, v) # post) = ?pre @ ?sep @ v @ ?post"
    by (simp add: prefixed_cookieString entry_def)
  have "splitFrom ?sep [] (?pre @ ?sep @ v @ ?post) = splitFrom ?sep (rev ?pre @ []) (?sep @ v @ ?post)"
    by (rule splitFrom_other_entries [OF assms(1,3,6)])
  also have "\<dots> = rev (rev ?pre @ []) # splitFrom ?sep [] (v @ ?post)"
    by (rule splitFrom_match) (simp add: sep)
  also have "splitFrom ?sep [] (v @ ?post) = splitFrom ?sep (rev v @ []) ?post"
    unfolding sep by (rule splitFrom_skip [OF assms(5)])
  also have "\<dots> = splitFrom ?sep (rev ?post @ rev v @ []) []"
    using splitFrom_other_entries [OF assms(2,4,6), of "rev v @ []" "[]"] by simp
  finally have "splitFrom ?sep [] (?pre @ ?sep @ v @ ?post) = [?pre, v @ ?post]"
    by simp
  then show ?thesis
    by (simp only: whole splitString_def sep) simp
qed

lemma first_value:
  assumes "0x3B \<notin> set v"
  shows "\<exists>more. splitString (v @ concat (map entry post)) (str '';'') = v # more"
proof -
  have "splitFrom [0x3B] [] (v @ concat (map entry post))
      = splitFrom [0x3B] (rev v @ []) (concat (map entry post))"
    by (rule splitFrom_skip [OF assms])
  moreover have "\<exists>more. splitFrom [0x3B] (rev v) (concat (map entry post)) = v # more"
    by (cases post) (simp_all add: entry_def str_separators)
  ultimately show ?thesis
    by (simp add: splitString_def str_separators)
qed

lemma getCookie_found:
  assumes "cleanJar jar" and "slotValues jar nm = [v]" and "0x3D \<notin> set nm" and "v \<noteq> []"
  shows "getCookie pf (Some (cookieString jar)) nm =
           (case decodeURIComponent pf v of None \<Rightarrow> Inl URIError | Some d \<Rightarrow> Inr (Some d))"
proof -
  from slot_once [OF assms(2)] obtain pre post where
    jar: "jar = pre @ (nm, v) # post" and fresh: "nm \<notin> fst ` set pre" "nm \<notin> fst ` set post"
    by blast
  from assms(1) jar have clean: "cleanJar pre" "cleanJar post" "0x3B \<notin> set v"
    by (simp_all add: cleanJar_def)
  note parts = split_cookie_once [OF clean(1,2) fresh clean(3) assms(3)]
  from first_value [OF clean(3)] obtain more where
    val: "splitString (v @ concat (map entry post)) (str '';'') = v # more"
    by blast
  show ?thesis
    using assms(4) by (simp add: getCookie_def jar parts val Let_def)
qed

lemma getCookie_absent:
  assumes "cleanJar jar" and "slotValues jar nm = []" and "0x3D \<notin> set nm"
  shows "getCookie pf (Some (cookieString jar)) nm = Inr None"
proof (cases "jar = []")
  case True
  then show ?thesis
    by (simp add: getCookie_def splitString_def str_separators Let_def)
next
  case False
  from assms(2) have fresh: "nm \<notin> fst ` set jar"
    by (simp add: slot_absent)
  let ?sep = "str ''; '' @ nm @ str ''=''"
  have sepne: "?sep \<noteq> []"
    by (simp add: str_separators)
  have whole: "str ''; '' @ cookieString jar = concat (map entry jar)"
    using False by (rule prefixed_cookieString)
  have "splitFrom ?sep [] (concat (map entry jar) @ [])
      = splitFrom ?sep (rev (concat (map entry jar)) @ []) []"
    by (rule splitFrom_other_entries [OF assms(1) fresh assms(3)])
  then have "splitFrom ?sep [] (concat (map entry jar)) = [concat (map entry jar)]"
    by simp
  then have "splitString (str ''; '' @ cookieString jar) ?sep = [concat (map entry jar)]"
    by (simp only: whole splitString_def sepne if_False)
  then show ?thesis
    by (simp add: getCookie_def Let_def)
qed

lemma assignCookie_slot:
  assumes "0x3B \<notin> set slot" "0x3D \<notin> set slot" "0x3B \<notin> set enc"
  shows "assignCookie (slot @ str ''='' @ enc @ str ''; path=/; max-age=31536000'') jar
       = AList.update slot enc jar"
proof -
  have attrs: "str ''; path=/; max-age=31536000'' = 0x3B # str '' path=/; max-age=31536000''"
    by (simp add: str_def)
  have "takeWhile (\<lambda>c. c \<noteq> 0x3B) ((slot @ 0x3D # enc) @ 0x3B # str '' path=/; max-age=31536000'')
      = slot @ 0x3D # enc"
    by (rule takeWhile_upto) (use assms(1,3) in simp)
  then have pair: "takeWhile (\<lambda>c. c \<noteq> 0x3B)
      (slot @ str ''='' @ enc @ str ''; path=/; max-age=31536000'') = slot @ 0x3D # enc"
    by (simp add: attrs str_separators)
  have nm: "takeWhile (\<lambda>c. c \<noteq> 0x3D) (slot @ 0x3D # enc) = slot"
    using assms(2) by (rule takeWhile_upto)
  show ?thesis
    by (simp add: assignCookie_def pair nm Let_def)
qed

lemma cleanJar_update:
  "cleanJar jar \<Longrightarrow> 0x3B \<notin> set k \<Longrightarrow> 0x3D \<notin> set k \<Longrightarrow> 0x3B \<notin> set v \<Longrightarrow>
   cleanJar (AList.update k v jar)"
  by (induction jar) (auto simp: cleanJar_def)

lemma slotValues_update_same:
  "distinct (map fst jar) \<Longrightarrow> slotValues (AList.update k v jar) k = [v]"
proof (induction jar)
  case Nil
  show ?case by (simp add: slotValues_def)
next
  case (Cons e jar)
  obtain n w where e: "e = (n, w)" by (cases e)
  show ?case
  proof (cases "n = k")
    case True
    with Cons.prems e have "k \<notin> fst ` set jar" by auto
    then have "filter (\<lambda>(n, v). n = k) jar = []"
      by (force simp: filter_empty_conv)
    with True e show ?thesis by (simp add: slotValues_def)
  next
    case False
    with Cons e show ?thesis by (simp add: slotValues_def)
  qed
qed

lemma slotValues_update_other:
  "k' \<noteq> k \<Longrightarrow> slotValues (AList.update k' v jar) k = slotValues jar k"
  by (induction jar) (auto simp: slotValues_def)

lemma slot_names_clean:
  "0x3B \<notin> set (str ''players'')" "0x3D \<notin> set (str ''players'')"
  "0x3B \<notin> set (str ''teams'')" "0x3D \<notin> set (str ''teams'')"
  "str ''teams'' \<noteq> str ''players''"
  by (simp_all add: str_def)

lemma loadSlot_found:
  assumes "cleanJar jar" "slotValues jar slot = [enc]" "0x3D \<notin> set slot" "enc \<noteq> []"
    and "decodeURIComponent pf enc = Some saved" "saved \<noteq> []" "JSON_parse pf saved = Some v"
  shows "loadSlot pf (Some (cookieString jar)) slot fallback = Inr v"
  using assms(5-7) by (simp add: loadSlot_def readSlot_def getCookie_found [OF assms(1-4)])

lemma loadSlot_absent:
  assumes "cleanJar jar" "slotValues jar slot = []" "0x3D \<notin> set slot"
  shows "loadSlot pf (Some (cookieString jar)) slot fallback = Inr fallback"
  by (simp add: loadSlot_def readSlot_def getCookie_absent [OF assms])

lemma asPlayer_playerJson: "asPlayer (playerJson p) = Some p"
  by (cases "teamId p") (simp_all add: playerJson_def str_def)

lemma asTeam_teamJson: "asTeam (teamJson t) = Some t"
  by (simp add: teamJson_def str_def)

lemma those_map_Some: "(\<And>x. f (g x) = Some x) \<Longrightarrow> those (map (f \<circ> g) xs) = Some xs"
  by (induction xs) simp_all

lemma asPlayers_playersJson: "asPlayers (playersJson ps) = Some ps"
  by (simp add: playersJson_def those_map_Some asPlayer_playerJson)

lemma asTeams_teamsJson: "asTeams (teamsJson ts) = Some ts"
  by (simp add: teamsJson_def those_map_Some asTeam_teamJson)

lemma seed_shape:
  "length (seededPlayers mk) = 13" "list_all (\<lambda>p. teamId p = None) (seededPlayers mk)"
  "length initialTeams = 2"
  by (simp_all add: seededPlayers_def seedNames_def initialTeams_def list_all_iff)

lemma persist_then_load:
  assumes "wellFormedJar jar"
    and p: "platformRoundTrips pf (playersJson ps) encP"
    and t: "platformRoundTrips pf (teamsJson ts) encT"
  shows "\<exists>jar'. persist pf ps ts jar = Inr jar'
           \<and> initialPlayers pf (Some (cookieString jar')) mk = Inr (playersJson ps)
           \<and> initialTeamsState pf (Some (cookieString jar')) = Inr (teamsJson ts)"
proof -
  let ?jar1 = "AList.update (str ''players'') encP jar"
  let ?jar2 = "AList.update (str ''teams'') encT ?jar1"
  from assms(1) have d: "distinct (map fst jar)" and c: "cleanJar jar"
    by (simp_all add: wellFormedJar_def)
  from p t have semi: "0x3B \<notin> set encP" "0x3B \<notin> set encT"
    by (simp_all add: platformRoundTrips_def)
  have saved: "persist pf ps ts jar = Inr ?jar2"
    using p t
    by (simp add: persist_def playersCookie_def teamsCookie_def slotCookie_def
        platformRoundTrips_def assignCookie_slot slot_names_clean)
  have c2: "cleanJar ?jar2"
    by (intro cleanJar_update c semi slot_names_clean)
  have d1: "distinct (map fst ?jar1)"
    using d by (rule distinct_update)
  have vt: "slotValues ?jar2 (str ''teams'') = [encT]"
    using d1 by (rule slotValues_update_same)
  have vp: "slotValues ?jar2 (str ''players'') = [encP]"
    using d by (simp add: slotValues_update_other slotValues_update_same slot_names_clean)
  from p have p1: "encP \<noteq> []"
    and p2: "decodeURIComponent pf encP = Some (JSON_stringify pf (playersJson ps))"
    and p3: "JSON_stringify pf (playersJson ps) \<noteq> []"
    and p4: "JSON_parse pf (JSON_stringify pf (playersJson ps)) = Some (playersJson ps)"
    by (simp_all add: platformRoundTrips_def)
  from t have t1: "encT \<noteq> []"
    and t2: "decodeURIComponent pf encT = Some (JSON_stringify pf (teamsJson ts))"
    and t3: "JSON_stringify pf (teamsJson ts) \<noteq> []"
    and t4: "JSON_parse pf (JSON_stringify pf (teamsJson ts)) = Some (teamsJson ts)"
    by (simp_all add: platformRoundTrips_def)
  have "initialPlayers pf (Some (cookieString ?jar2)) mk = Inr (playersJson ps)"
    unfolding initialPlayers_def
    by (rule loadSlot_found [OF c2 vp slot_names_clean(2) p1 p2 p3 p4])
  moreover have "initialTeamsState pf (Some (cookieString ?jar2)) = Inr (teamsJson ts)"
    unfolding initialTeamsState_def
    by (rule loadSlot_found [OF c2 vt slot_names_clean(4) t1 t2 t3 t4])
  ultimately show ?thesis
    using saved by blast
qed

lemma loadSlot_unparseable:
  "getCookie pf dc slot = Inr (Some saved) \<Longrightarrow> JSON_parse pf saved = None \<Longrightarrow>
   loadSlot pf dc slot fallback = Inr fallback"
  by (simp add: loadSlot_def readSlot_def)

lemma loadSlot_no_document: "loadSlot pf None slot fallback = Inr fallback"
  by (simp add: loadSlot_def readSlot_def getCookie_def)

text \<open>
  What the adapter does give. When the platform's JSON and URI functions round-trip the two
  collections and the browser's store is well formed, the two persistence effects succeed
  and the next load reads back exactly the collections that were written; read as typed
  collections they are the original lists. When the store holds no pair for a slot, when
  there is no document, or when the text that \<open>getCookie\<close> returns does not parse as
  JSON, the initial value of the slice is the seed: 13 players without a team, 2 teams.
\<close>

theorem persistence_round_trip:
  "(wellFormedJar jar \<and> platformRoundTrips pf (playersJson ps) encP
      \<and> platformRoundTrips pf (teamsJson ts) encT \<longrightarrow>
      (\<exists>jar'. persist pf ps ts jar = Inr jar'
         \<and> initialPlayers pf (Some (cookieString jar')) mk = Inr (playersJson ps)
         \<and> initialTeamsState pf (Some (cookieString jar')) = Inr (teamsJson ts)))
   \<and> asPlayers (playersJson ps :: 'n json) = Some ps
   \<and> asTeams (teamsJson ts :: 'n json) = Some ts
   \<and> (cleanJar jar \<and> slotValues jar (str ''players'') = [] \<longrightarrow>
        initialPlayers pf (Some (cookieString jar)) mk = Inr (playersJson (seededPlayers mk)))
   \<and> (cleanJar jar \<and> slotValues jar (str ''teams'') = [] \<longrightarrow>
        initialTeamsState pf (Some (cookieString jar)) = Inr (teamsJson initialTeams))
   \<and> initialPlayers pf None mk = Inr (playersJson (seededPlayers mk))
   \<and> initialTeamsState pf None = Inr (teamsJson initialTeams)
   \<and> (getCookie pf dc (str ''players'') = Inr (Some saved) \<and> JSON_parse pf saved = None \<longrightarrow>
        initialPlayers pf dc mk = Inr (playersJson (seededPlayers mk)))
   \<and> (getCookie pf dc (str ''teams'') = Inr (Some saved) \<and> JSON_parse pf saved = None \<longrightarrow>
        initialTeamsState pf dc = Inr (teamsJson initialTeams))
   \<and> length (seededPlayers mk) = 13
   \<and> list_all (\<lambda>p. teamId p = None) (seededPlayers mk)
   \<and> length initialTeams = 2"
proof -
  have trip: "wellFormedJar jar \<and> platformRoundTrips pf (playersJson ps) encP
      \<and> platformRoundTrips pf (teamsJson ts) encT \<longrightarrow>
      (\<exists>jar'. persist pf ps ts jar = Inr jar'
         \<and> initialPlayers pf (Some (cookieString jar')) mk = Inr (playersJson ps)
         \<and> initialTeamsState pf (Some (cookieString jar')) = Inr (teamsJson ts))"
    using persist_then_load [where jar = jar and pf = pf and ps = ps and encP = encP
        and ts = ts and encT = encT and mk = mk] by blast
  have typed: "asPlayers (playersJson ps :: 'n json) = Some ps"
    "asTeams (teamsJson ts :: 'n json) = Some ts"
    by (rule asPlayers_playersJson, rule asTeams_teamsJson)
  have absent: "cleanJar jar \<and> slotValues jar (str ''players'') = [] \<longrightarrow>
        initialPlayers pf (Some (cookieString jar)) mk = Inr (playersJson (seededPlayers mk))"
    "cleanJar jar \<and> slotValues jar (str ''teams'') = [] \<longrightarrow>
        initialTeamsState pf (Some (cookieString jar)) = Inr (teamsJson initialTeams)"
    by (simp_all add: initialPlayers_def initialTeamsState_def loadSlot_absent slot_names_clean)
  have nodoc: "initialPlayers pf None mk = Inr (playersJson (seededPlayers mk))"
    "initialTeamsState pf None = Inr (teamsJson initialTeams)"
    by (simp_all add: initialPlayers_def initialTeamsState_def loadSlot_no_document)
  have bad: "getCookie pf dc (str ''players'') = Inr (Some saved) \<and> JSON_parse pf saved = None \<longrightarrow>
        initialPlayers pf dc mk = Inr (playersJson (seededPlayers mk))"
    "getCookie pf dc (str ''teams'') = Inr (Some saved) \<and> JSON_parse pf saved = None \<longrightarrow>
        initialTeamsState pf dc = Inr (teamsJson initialTeams)"
    by (simp_all add: initialPlayers_def initialTeamsState_def loadSlot_unparseable)
  from trip typed absent nodoc bad seed_shape show ?thesis
    by blast
qed

lemmas cookie_eval = getCookie_def splitString_def readSlot_def loadSlot_def initialPlayers_def
  initialTeamsState_def demoPlatform_def str_def Let_def

lemma demo_round_trip: "platformRoundTrips demoPlatform (JArray []) (str ''%5B%5D'')"
  by (simp add: platformRoundTrips_def demoPlatform_def str_def)

lemma demo_persist:
  "persist demoPlatform [] [] themeJar =
     Inr [(str ''theme'', str ''dark''), (str ''players'', str ''%5B%5D''),
          (str ''teams'', str ''%5B%5D'')]"
  by (simp add: persist_def playersCookie_def teamsCookie_def slotCookie_def playersJson_def
      teamsJson_def assignCookie_def themeJar_def demoPlatform_def str_def Let_def)

theorem persistence_round_trip_witness:
  "wellFormedJar themeJar
   \<and> platformRoundTrips demoPlatform (playersJson []) (str ''%5B%5D'')
   \<and> platformRoundTrips demoPlatform (teamsJson []) (str ''%5B%5D'')
   \<and> persist demoPlatform [] [] themeJar =
       Inr [(str ''theme'', str ''dark''), (str ''players'', str ''%5B%5D''),
            (str ''teams'', str ''%5B%5D'')]
   \<and> initialPlayers demoPlatform
        (Some (cookieString [(str ''theme'', str ''dark''), (str ''players'', str ''%5B%5D''),
                             (str ''teams'', str ''%5B%5D'')])) demoIds = Inr (playersJson [])
   \<and> cleanJar themeJar \<and> slotValues themeJar (str ''players'') = []
   \<and> initialPlayers demoPlatform (Some (cookieString themeJar)) demoIds
       = Inr (playersJson (seededPlayers demoIds))
   \<and> getCookie demoPlatform (Some (cookieString brokenJar)) (str ''players'') = Inr (Some (str ''nope''))
   \<and> JSON_parse demoPlatform (str ''nope'') = None
   \<and> initialPlayers demoPlatform (Some (cookieString brokenJar)) demoIds
       = Inr (playersJson (seededPlayers demoIds))"
proof -
  have wf: "wellFormedJar themeJar"
    by (simp add: wellFormedJar_def cleanJar_def themeJar_def str_def)
  have rt: "platformRoundTrips demoPlatform (playersJson []) (str ''%5B%5D'')"
    "platformRoundTrips demoPlatform (teamsJson []) (str ''%5B%5D'')"
    by (simp_all add: playersJson_def teamsJson_def demo_round_trip)
  have none: "cleanJar themeJar \<and> slotValues themeJar (str ''players'') = []"
    by (simp add: cleanJar_def slotValues_def themeJar_def str_def)
  have got: "getCookie demoPlatform (Some (cookieString brokenJar)) (str ''players'')
      = Inr (Some (str ''nope''))"
    by (simp add: brokenJar_def cookie_eval)
  have unp: "JSON_parse demoPlatform (str ''nope'') = None"
    by (simp add: demoPlatform_def str_def)
  note inst = persistence_round_trip [of themeJar demoPlatform "[]" "str ''%5B%5D''" "[]"
      "str ''%5B%5D''" demoIds "Some (cookieString brokenJar)" "str ''nope''"]
  from inst wf rt none got unp show ?thesis
    by (auto simp add: demo_persist)
qed

text \<open>
  Claim C4. The claim promises the seed whenever the stored text fails to parse. The
  initializer calls \<open>getCookie\<close> before it enters \<open>try\<close>, and \<open>getCookie\<close> decodes the
  value: a stored text that is no valid percent-encoding, such as a lone percent sign,
  makes \<open>decodeURIComponent\<close> raise a URIError that nothing catches, and the
  initializer returns neither the seed nor any other collection.
\<close>

theorem load_undecodable_slot_raises:
  "(decodeURIComponent pf (str ''%'') = None \<longrightarrow>
      initialPlayers pf (Some (str ''players=%'')) mk = Inl URIError
      \<and> initialTeamsState pf (Some (str ''teams=%'')) = Inl URIError)
   \<and> (cleanJar jar \<and> slotValues jar (str ''players'') = [enc] \<and> enc \<noteq> []
        \<and> decodeURIComponent pf enc = None \<longrightarrow>
      initialPlayers pf (Some (cookieString jar)) mk = Inl URIError)
   \<and> (cleanJar jar \<and> slotValues jar (str ''teams'') = [enc] \<and> enc \<noteq> []
        \<and> decodeURIComponent pf enc = None \<longrightarrow>
      initialTeamsState pf (Some (cookieString jar)) = Inl URIError)"
proof -
  have lone: "decodeURIComponent pf (str ''%'') = None \<longrightarrow>
      initialPlayers pf (Some (str ''players=%'')) mk = Inl URIError
      \<and> initialTeamsState pf (Some (str ''teams=%'')) = Inl URIError"
    by (simp add: cookie_eval)
  have stored: "initialPlayers pf (Some (cookieString jar)) mk = Inl URIError"
    if "cleanJar jar" "slotValues jar (str ''players'') = [enc]" "enc \<noteq> []"
      "decodeURIComponent pf enc = None"
    using that(4)
    by (simp add: initialPlayers_def loadSlot_def readSlot_def
        getCookie_found [OF that(1,2) slot_names_clean(2) that(3)])
  have storedT: "initialTeamsState pf (Some (cookieString jar)) = Inl URIError"
    if "cleanJar jar" "slotValues jar (str ''teams'') = [enc]" "enc \<noteq> []"
      "decodeURIComponent pf enc = None"
    using that(4)
    by (simp add: initialTeamsState_def loadSlot_def readSlot_def
        getCookie_found [OF that(1,2) slot_names_clean(4) that(3)])
  from lone stored storedT show ?thesis
    by blast
qed

theorem load_undecodable_slot_raises_witness:
  "decodeURIComponent percentPlatform (str ''%'') = None
   \<and> cookieString [(str ''players'', str ''%'')] = str ''players=%''
   \<and> initialPlayers percentPlatform (Some (str ''players=%'')) demoIds = Inl URIError
   \<and> initialTeamsState percentPlatform (Some (str ''teams=%'')) = Inl URIError"
  using load_undecodable_slot_raises [of percentPlatform demoIds "[(str ''players'', str ''%'')]"
      "str ''%''"]
  by (simp add: percentPlatform_def str_def)

lemma readSlot_fallback_cases:
  assumes "cleanJar jar" and "0x3D \<notin> set slot"
    and "readSlot pf (Some (cookieString jar)) slot = Inr None"
  shows "slotValues jar slot = [] \<or> 2 \<le> length (slotValues jar slot)
       \<or> (\<exists>enc. slotValues jar slot = [enc]
             \<and> (enc = [] \<or> (\<exists>saved. decodeURIComponent pf enc = Some saved
                               \<and> (saved = [] \<or> JSON_parse pf saved = None))))"
proof (cases "slotValues jar slot")
  case Nil
  then show ?thesis by simp
next
  case (Cons enc more)
  show ?thesis
  proof (cases more)
    case (Cons e es)
    with \<open>slotValues jar slot = enc # more\<close> show ?thesis by simp
  next
    case Nil
    with \<open>slotValues jar slot = enc # more\<close> have one: "slotValues jar slot = [enc]" by simp
    show ?thesis
    proof (cases "enc = []")
      case True
      with one show ?thesis by simp
    next
      case False
      from assms(3) getCookie_found [OF assms(1) one assms(2) False, of pf]
      have "\<exists>saved. decodeURIComponent pf enc = Some saved
              \<and> (saved = [] \<or> JSON_parse pf saved = None)"
        by (auto simp: readSlot_def split: option.splits if_splits)
      with one show ?thesis by simp
    qed
  qed
qed

text \<open>
  Claim C10, amended. A text that \<open>getCookie\<close> returns and that parses is taken as the
  initial value of the slice whatever its shape, also when it is stored once under the
  slot's name in a clean store; a number and an array holding an empty object are such
  values and are no collection of players or teams. In a clean store the fallback is
  reached only when the slot is stored under no pair, under two or more pairs, with an
  empty value, or with a value whose decoded text is empty or does not parse.
\<close>

theorem load_without_validation:
  "(getCookie pf dc slot = Inr (Some saved) \<and> saved \<noteq> [] \<and> JSON_parse pf saved = Some v \<longrightarrow>
      loadSlot pf dc slot fallback = Inr v)
   \<and> (cleanJar jar \<and> 0x3D \<notin> set slot \<and> slotValues jar slot = [enc] \<and> enc \<noteq> []
        \<and> decodeURIComponent pf enc = Some saved \<and> saved \<noteq> [] \<and> JSON_parse pf saved = Some v \<longrightarrow>
      loadSlot pf (Some (cookieString jar)) slot fallback = Inr v)
   \<and> asPlayers (JNumber n :: 'n json) = None
   \<and> asPlayers (JArray [JObject []] :: 'n json) = None
   \<and> asTeams (JNumber n :: 'n json) = None
   \<and> asTeams (JArray [JObject []] :: 'n json) = None
   \<and> (cleanJar jar \<and> 0x3D \<notin> set slot \<and> readSlot pf (Some (cookieString jar)) slot = Inr None \<longrightarrow>
        slotValues jar slot = [] \<or> 2 \<le> length (slotValues jar slot)
        \<or> (\<exists>enc. slotValues jar slot = [enc]
              \<and> (enc = [] \<or> (\<exists>saved. decodeURIComponent pf enc = Some saved
                                \<and> (saved = [] \<or> JSON_parse pf saved = None)))))"
proof -
  have verbatim: "getCookie pf dc slot = Inr (Some saved) \<and> saved \<noteq> []
      \<and> JSON_parse pf saved = Some v \<longrightarrow> loadSlot pf dc slot fallback = Inr v"
    by (simp add: loadSlot_def readSlot_def)
  have stored: "cleanJar jar \<and> 0x3D \<notin> set slot \<and> slotValues jar slot = [enc] \<and> enc \<noteq> []
        \<and> decodeURIComponent pf enc = Some saved \<and> saved \<noteq> [] \<and> JSON_parse pf saved = Some v \<longrightarrow>
      loadSlot pf (Some (cookieString jar)) slot fallback = Inr v"
    using loadSlot_found [of jar slot enc pf saved v fallback] by blast
  have shapes: "asPlayers (JNumber n :: 'n json) = None"
    "asPlayers (JArray [JObject []] :: 'n json) = None"
    "asTeams (JNumber n :: 'n json) = None"
    "asTeams (JArray [JObject []] :: 'n json) = None"
    by simp_all
  have only: "cleanJar jar \<and> 0x3D \<notin> set slot
        \<and> readSlot pf (Some (cookieString jar)) slot = Inr None \<longrightarrow>
        slotValues jar slot = [] \<or> 2 \<le> length (slotValues jar slot)
        \<or> (\<exists>enc. slotValues jar slot = [enc]
              \<and> (enc = [] \<or> (\<exists>saved. decodeURIComponent pf enc = Some saved
                                \<and> (saved = [] \<or> JSON_parse pf saved = None))))"
    using readSlot_fallback_cases [of jar slot pf] by blast
  from verbatim stored shapes only show ?thesis
    by (intro conjI)
qed

theorem load_without_validation_witness:
  "cleanJar numberJar \<and> slotValues numberJar (str ''players'') = [str ''5'']
   \<and> decodeURIComponent demoPlatform (str ''5'') = Some (str ''5'')
   \<and> JSON_parse demoPlatform (str ''5'') = Some (JNumber 5)
   \<and> initialPlayers demoPlatform (Some (cookieString numberJar)) demoIds = Inr (JNumber 5)
   \<and> asPlayers (JNumber 5 :: int json) = None
   \<and> cleanJar themeJar
   \<and> readSlot demoPlatform (Some (cookieString themeJar)) (str ''players'') = Inr None
   \<and> slotValues themeJar (str ''players'') = []"
proof -
  have a: "cleanJar numberJar" "slotValues numberJar (str ''players'') = [str ''5'']"
    "0x3D \<notin> set (str ''players'')" "str ''5'' \<noteq> []"
    "decodeURIComponent demoPlatform (str ''5'') = Some (str ''5'')"
    "JSON_parse demoPlatform (str ''5'') = Some (JNumber 5)"
    by (simp_all add: cleanJar_def slotValues_def numberJar_def demoPlatform_def str_def)
  have b: "cleanJar themeJar" "slotValues themeJar (str ''players'') = []"
    by (simp_all add: cleanJar_def slotValues_def themeJar_def str_def)
  have c: "readSlot demoPlatform (Some (cookieString themeJar)) (str ''players'') = Inr None"
    by (simp add: readSlot_def getCookie_absent [OF b a(3)])
  note inst = load_without_validation [of demoPlatform "Some (cookieString numberJar)"
      "str ''players''" "str ''5''" "JNumber 5" "playersJson (seededPlayers demoIds)"
      numberJar "str ''5''" 5]
  from inst a b c show ?thesis
    by (simp add: initialPlayers_def)
qed

text \<open>
  Claim C10 as stated says that the fallback is taken only when the slot is absent, empty
  or unparseable. With two cookies named \<open>players\<close> in the cookie string the name is
  found twice, \<open>getCookie\<close> returns null, and the seed is used although the slot is
  present, not empty, and its text parses.
\<close>

theorem seed_fallback_with_slot_present:
  "slotValues twiceJar (str ''players'') = [str ''5'', str ''5'']
   \<and> cookieString twiceJar = str ''players=5; players=5''
   \<and> decodeURIComponent demoPlatform (str ''5'') = Some (str ''5'')
   \<and> JSON_parse demoPlatform (str ''5'') = Some (JNumber 5)
   \<and> readSlot demoPlatform (Some (cookieString twiceJar)) (str ''players'') = Inr None
   \<and> initialPlayers demoPlatform (Some (cookieString twiceJar)) demoIds
       = Inr (playersJson (seededPlayers demoIds))"
  by (simp add: slotValues_def twiceJar_def cookie_eval)

end
